theory Spec2Isabelle
  imports Complex_Main "HOL-Library.Word"
begin

section \<open>JavaScript strings\<close>

text \<open>
  A string is a list of code units. The model keeps the code units below 256 (Isabelle's
  \<open>char\<close>); on these \<^verbatim>\<open>String.prototype.toLowerCase\<close> maps \<open>A..Z\<close> and the
  Latin-1 capitals (192..222 without the multiplication sign 215) to the code unit 32
  above, and leaves every other code unit alone.
\<close>

definition lower_char :: "char \<Rightarrow> char" where
  "lower_char c =
     (let n = (of_char c :: nat)
      in if (65 \<le> n \<and> n \<le> 90) \<or> (192 \<le> n \<and> n \<le> 222 \<and> n \<noteq> 215)
         then char_of (n + 32) else c)"

definition toLowerCase :: "string \<Rightarrow> string" where
  "toLowerCase s = map lower_char s"

fun startsWith :: "string \<Rightarrow> string \<Rightarrow> bool" where
  "startsWith s [] = True"
| "startsWith [] (p # ps) = False"
| "startsWith (c # cs) (p # ps) = (c = p \<and> startsWith cs ps)"

text \<open>\<^verbatim>\<open>s.includes(p)\<close>: \<open>p\<close> occurs in \<open>s\<close> as a contiguous run.\<close>

fun str_includes :: "string \<Rightarrow> string \<Rightarrow> bool" where
  "str_includes [] p = (p = [])"
| "str_includes (c # cs) p = (startsWith (c # cs) p \<or> str_includes cs p)"

text \<open>Decimal digits of a non-negative integer, and of any integer with its sign.\<close>

function digits :: "int \<Rightarrow> string" where
  "digits n = (if n < 10 then [char_of (48 + n)] else digits (n div 10) @ [char_of (48 + n mod 10)])"
  by pat_completeness auto
termination
  by (relation "measure nat") auto

declare digits.simps [simp del]

definition decimal :: "int \<Rightarrow> string" where
  "decimal i = (if i < 0 then CHR ''-'' # digits (- i) else digits i)"

fun join :: "string \<Rightarrow> string list \<Rightarrow> string" where
  "join sep [] = []"
| "join sep [x] = x"
| "join sep (x # y # ys) = x @ sep @ join sep (y # ys)"

section \<open>Thrown values\<close>

text \<open>
  The \<^verbatim>\<open>catch (err: any)\<close> of \<^verbatim>\<open>retry\<close> receives any JavaScript value. The model
  covers the primitive values, functions, \<^verbatim>\<open>Error\<close> instances (with the value of
  their \<^verbatim>\<open>message\<close> property, which at run time need not be a string), arrays and
  plain objects (own enumerable properties in enumeration order). Numbers are the
  integral values and the three non-finite values. Values that need a heap (cyclic
  objects) or user code (\<^verbatim>\<open>toJSON\<close>, getters, a \<^verbatim>\<open>toLowerCase\<close> method of their own)
  are outside the model.
\<close>

datatype jsnumber = Integral int | NaN | PosInfinity | NegInfinity

datatype jsval =
    JUndefined
  | JNull
  | JBoolean bool
  | JNumber jsnumber
  | JBigInt int
  | JString string
  | JSymbol string
  | JFunction string
  | JError jsval
  | JArray "jsval list"
  | JObject "(string \<times> jsval) list"

text \<open>\<^verbatim>\<open>new Error(m)\<close>: an \<^verbatim>\<open>Error\<close> whose message is the string \<open>m\<close>.\<close>

abbreviation new_Error :: "string \<Rightarrow> jsval" where
  "new_Error m \<equiv> JError (JString m)"

datatype js_exception = TypeError

fun typeof :: "jsval \<Rightarrow> string" where
  "typeof JUndefined = ''undefined''"
| "typeof JNull = ''object''"
| "typeof (JBoolean b) = ''boolean''"
| "typeof (JNumber n) = ''number''"
| "typeof (JBigInt i) = ''bigint''"
| "typeof (JString s) = ''string''"
| "typeof (JSymbol d) = ''symbol''"
| "typeof (JFunction src) = ''function''"
| "typeof (JError m) = ''object''"
| "typeof (JArray vs) = ''object''"
| "typeof (JObject ps) = ''object''"

fun instanceof_Error :: "jsval \<Rightarrow> bool" where
  "instanceof_Error (JError m) = True"
| "instanceof_Error v = False"

fun message :: "jsval \<Rightarrow> jsval" where
  "message (JError m) = m"
| "message v = JUndefined"

text \<open>
  \<^verbatim>\<open>Number::toString\<close> of an integral value: plain decimal digits below \<open>10^21\<close>, and
  from there on exponent notation on the digits that identify the number, which are the
  digits of the integer without its trailing zeros whenever these are at most 15.
\<close>

definition strip_zeros :: "string \<Rightarrow> string" where
  "strip_zeros ds = rev (dropWhile (\<lambda>c. c = CHR ''0'') (rev ds))"

definition exponential :: "int \<Rightarrow> string" where
  "exponential n =
     (let ds = digits n
      in case strip_zeros ds of
           [] \<Rightarrow> []
         | d # rest \<Rightarrow>
             d # (if rest = [] then [] else CHR ''.'' # rest) @ ''e+'' @ digits (int (length ds) - 1))"

fun Number_toString :: "jsnumber \<Rightarrow> string" where
  "Number_toString (Integral i) =
     (if \<bar>i\<bar> < 1000000000000000000000 then decimal i
      else (if i < 0 then ''-'' else []) @ exponential \<bar>i\<bar>)"
| "Number_toString NaN = ''NaN''"
| "Number_toString PosInfinity = ''Infinity''"
| "Number_toString NegInfinity = ''-Infinity''"

text \<open>
  \<^verbatim>\<open>String(v)\<close>. The classifier applies it to values that are neither an
  \<^verbatim>\<open>Error\<close> nor of type \<^verbatim>\<open>object\<close>; for the object-typed values the equations give
  the built-in conversions.
\<close>

fun String_of :: "jsval \<Rightarrow> string"
  and String_of_elements :: "jsval list \<Rightarrow> string list" where
  "String_of JUndefined = ''undefined''"
| "String_of JNull = ''null''"
| "String_of (JBoolean b) = (if b then ''true'' else ''false'')"
| "String_of (JNumber n) = Number_toString n"
| "String_of (JBigInt i) = decimal i"
| "String_of (JString s) = s"
| "String_of (JSymbol d) = ''Symbol('' @ d @ '')''"
| "String_of (JFunction src) = src"
| "String_of (JError m) =
     (let msg = (if m = JUndefined then [] else String_of m)
      in if msg = [] then ''Error'' else ''Error: '' @ msg)"
| "String_of (JArray vs) = join '','' (String_of_elements vs)"
| "String_of (JObject ps) = ''[object Object]''"
| "String_of_elements [] = []"
| "String_of_elements (v # vs) =
     (if v = JUndefined \<or> v = JNull then [] else String_of v) # String_of_elements vs"

subsection \<open>\<^verbatim>\<open>JSON.stringify\<close>\<close>

definition hex_digit :: "nat \<Rightarrow> char" where
  "hex_digit n = (if n < 10 then char_of (48 + n) else char_of (87 + n))"

definition json_escape :: "char \<Rightarrow> string" where
  "json_escape c =
     (let n = (of_char c :: nat)
      in if n = 8 then [CHR 0x5C, CHR ''b'']
         else if n = 9 then [CHR 0x5C, CHR ''t'']
         else if n = 10 then [CHR 0x5C, CHR ''n'']
         else if n = 12 then [CHR 0x5C, CHR ''f'']
         else if n = 13 then [CHR 0x5C, CHR ''r'']
         else if n = 34 then [CHR 0x5C, CHR 0x22]
         else if n = 92 then [CHR 0x5C, CHR 0x5C]
         else if n < 32
           then [CHR 0x5C, CHR ''u'', CHR ''0'', CHR ''0'', hex_digit (n div 16), hex_digit (n mod 16)]
         else [c])"

definition QuoteJSONString :: "string \<Rightarrow> string" where
  "QuoteJSONString s = [CHR 0x22] @ concat (map json_escape s) @ [CHR 0x22]"

text \<open>
  \<^verbatim>\<open>SerializeJSONProperty\<close> of ECMA-262: \<open>Inr None\<close> is the result
  \<^verbatim>\<open>undefined\<close> (the value is skipped in an object and written \<^verbatim>\<open>null\<close> in an
  array), \<open>Inl TypeError\<close> is the exception thrown for a BigInt. The own properties
  an \<^verbatim>\<open>Error\<close> gets from its constructor are not enumerable, so it serialises as an
  empty object.
\<close>

fun SerializeJSONProperty :: "jsval \<Rightarrow> js_exception + string option"
  and SerializeJSONArray :: "jsval list \<Rightarrow> js_exception + string list"
  and SerializeJSONObject :: "(string \<times> jsval) list \<Rightarrow> js_exception + string list" where
  "SerializeJSONProperty JUndefined = Inr None"
| "SerializeJSONProperty JNull = Inr (Some ''null'')"
| "SerializeJSONProperty (JBoolean b) = Inr (Some (if b then ''true'' else ''false''))"
| "SerializeJSONProperty (JNumber n) =
     Inr (Some (case n of Integral i \<Rightarrow> Number_toString n | _ \<Rightarrow> ''null''))"
| "SerializeJSONProperty (JBigInt i) = Inl TypeError"
| "SerializeJSONProperty (JString s) = Inr (Some (QuoteJSONString s))"
| "SerializeJSONProperty (JSymbol d) = Inr None"
| "SerializeJSONProperty (JFunction src) = Inr None"
| "SerializeJSONProperty (JError m) = Inr (Some ''{}'')"
| "SerializeJSONProperty (JArray vs) =
     (case SerializeJSONArray vs of
        Inl e \<Rightarrow> Inl e
      | Inr rs \<Rightarrow> Inr (Some (''['' @ join '','' rs @ '']'')))"
| "SerializeJSONProperty (JObject ps) =
     (case SerializeJSONObject ps of
        Inl e \<Rightarrow> Inl e
      | Inr rs \<Rightarrow> Inr (Some (''{'' @ join '','' rs @ ''}'')))"
| "SerializeJSONArray [] = Inr []"
| "SerializeJSONArray (v # vs) =
     (case SerializeJSONProperty v of
        Inl e \<Rightarrow> Inl e
      | Inr r \<Rightarrow>
          (case SerializeJSONArray vs of
             Inl e \<Rightarrow> Inl e
           | Inr rs \<Rightarrow> Inr ((case r of None \<Rightarrow> ''null'' | Some s \<Rightarrow> s) # rs)))"
| "SerializeJSONObject [] = Inr []"
| "SerializeJSONObject (p # ps) =
     (case SerializeJSONProperty (snd p) of
        Inl e \<Rightarrow> Inl e
      | Inr r \<Rightarrow>
          (case SerializeJSONObject ps of
             Inl e \<Rightarrow> Inl e
           | Inr rs \<Rightarrow>
               Inr (case r of
                      None \<Rightarrow> rs
                    | Some s \<Rightarrow> (QuoteJSONString (fst p) @ '':'' @ s) # rs)))"

definition JSON_stringify :: "jsval \<Rightarrow> js_exception + string option" where
  "JSON_stringify v = SerializeJSONProperty v"

text \<open>
  The values on which \<^verbatim>\<open>JSON.stringify\<close> throws: a BigInt, or an array or object that
  holds one at any depth.
\<close>

fun holds_BigInt :: "jsval \<Rightarrow> bool"
  and holds_BigInt_elements :: "jsval list \<Rightarrow> bool"
  and holds_BigInt_properties :: "(string \<times> jsval) list \<Rightarrow> bool" where
  "holds_BigInt (JBigInt i) = True"
| "holds_BigInt (JArray vs) = holds_BigInt_elements vs"
| "holds_BigInt (JObject ps) = holds_BigInt_properties ps"
| "holds_BigInt v = False"
| "holds_BigInt_elements [] = False"
| "holds_BigInt_elements (v # vs) = (holds_BigInt v \<or> holds_BigInt_elements vs)"
| "holds_BigInt_properties [] = False"
| "holds_BigInt_properties (p # ps) = (holds_BigInt (snd p) \<or> holds_BigInt_properties ps)"

subsection \<open>The stringification step of the classifier\<close>

text \<open>
  \<^verbatim>\<open>
  let msg = "";
  if (err instanceof Error) msg = err.message.toLowerCase();
  else if (typeof err === 'object') msg = JSON.stringify(err).toLowerCase();
  else msg = String(err).toLowerCase();
  \<close>
  \<open>Inl\<close> is an exception raised by the step itself: the one \<^verbatim>\<open>JSON.stringify\<close>
  throws, or the \<^verbatim>\<open>TypeError\<close> of calling \<^verbatim>\<open>toLowerCase\<close> on a value that has no
  such method (\<^verbatim>\<open>undefined\<close>, or the message of an \<^verbatim>\<open>Error\<close> when it is not a string).
\<close>

definition stringification :: "jsval \<Rightarrow> js_exception + string" where
  "stringification err =
     (if instanceof_Error err then
        (case message err of
           JString m \<Rightarrow> Inr (toLowerCase m)
         | _ \<Rightarrow> Inl TypeError)
      else if typeof err = ''object'' then
        (case JSON_stringify err of
           Inl e \<Rightarrow> Inl e
         | Inr None \<Rightarrow> Inl TypeError
         | Inr (Some s) \<Rightarrow> Inr (toLowerCase s))
      else Inr (toLowerCase (String_of err)))"

section \<open>The retrying request executor\<close>

text \<open>The substring tests of \<^verbatim>\<open>retry\<close>, one definition for each condition of the source.\<close>

definition payload_too_large_marker :: "string \<Rightarrow> bool" where
  "payload_too_large_marker msg \<longleftrightarrow>
     str_includes msg ''413'' \<or> str_includes msg ''payload too large''"

definition invalid_argument_marker :: "string \<Rightarrow> bool" where
  "invalid_argument_marker msg \<longleftrightarrow>
     str_includes msg ''400'' \<or> str_includes msg ''invalid argument''"

definition quota_marker :: "string \<Rightarrow> bool" where
  "quota_marker msg \<longleftrightarrow>
     str_includes msg ''429'' \<or> str_includes msg ''resource_exhausted'' \<or> str_includes msg ''quota''"

definition transient_marker :: "string \<Rightarrow> bool" where
  "transient_marker msg \<longleftrightarrow>
     str_includes msg ''500'' \<or>
     str_includes msg ''503'' \<or>
     str_includes msg ''xhr error'' \<or>
     str_includes msg ''fetch failed'' \<or>
     str_includes msg ''timeout'' \<or>
     str_includes msg ''networkerror'' \<or>
     str_includes msg ''error code: 6'' \<or>
     str_includes msg ''rpc failed''"

text \<open>
  What the executor raises. The first three constructors are the instances the executor
  creates itself (\<^verbatim>\<open>new FileTooLargeError(...)\<close>, \<^verbatim>\<open>new UnsupportedFormatError(...)\<close>,
  \<^verbatim>\<open>new QuotaExceededError(...)\<close>, each with the fixed message of the source);
  \<open>Rethrown err\<close> is \<^verbatim>\<open>throw err\<close>, the caught value itself; \<open>Uncaught e\<close> is an
  exception raised inside the \<^verbatim>\<open>catch\<close> block by the stringification step.
\<close>

datatype rejection =
    FileTooLargeError
  | UnsupportedFormatError
  | QuotaExceededError
  | Rethrown jsval
  | Uncaught js_exception

datatype 'a settled = Resolved 'a | Rejected rejection

text \<open>
  The observable effects of one run, in order: each call of the wrapped operation, each
  \<^verbatim>\<open>console.warn\<close> (with the interpolated number) and each \<^verbatim>\<open>setTimeout\<close> sleep
  (with its duration in milliseconds).
\<close>

datatype event = Invoke | Warn_quota int | Warn_retrying int | Sleep int

fun after :: "event list \<Rightarrow> 'a settled \<times> 's \<times> event list \<Rightarrow> 'a settled \<times> 's \<times> event list" where
  "after evs (r, s, tr) = (r, s, evs @ tr)"

text \<open>
  The wrapped operation \<^verbatim>\<open>fn\<close> is any effectful computation that settles: from a
  state of its world it either throws (\<open>Inl\<close>) or returns (\<open>Inr\<close>), and leaves a new
  state. \<^verbatim>\<open>retries\<close> and \<^verbatim>\<open>delay\<close> are integers; doubling an integer is exact in
  the source's number type as long as the result stays finite.
\<close>

function retry ::
  "('s \<Rightarrow> (jsval + 'a) \<times> 's) \<Rightarrow> int \<Rightarrow> int \<Rightarrow> 's \<Rightarrow> 'a settled \<times> 's \<times> event list" where
  "retry fn retries delay s =
     (case fn s of
        (Inr v, s1) \<Rightarrow> (Resolved v, s1, [Invoke])
      | (Inl err, s1) \<Rightarrow>
          (case stringification err of
             Inl e \<Rightarrow> (Rejected (Uncaught e), s1, [Invoke])
           | Inr msg \<Rightarrow>
               if payload_too_large_marker msg then (Rejected FileTooLargeError, s1, [Invoke])
               else if invalid_argument_marker msg then (Rejected UnsupportedFormatError, s1, [Invoke])
               else if quota_marker msg then
                 (if retries > 0
                  then after [Invoke, Warn_quota delay, Sleep delay]
                         (retry fn (retries - 1) (delay * 2) s1)
                  else (Rejected QuotaExceededError, s1, [Invoke]))
               else if retries > 0 \<and> transient_marker msg
                 then after [Invoke, Warn_retrying retries, Sleep delay]
                        (retry fn (retries - 1) (delay * 2) s1)
               else (Rejected (Rethrown err), s1, [Invoke])))"
  by pat_completeness auto
termination
  by (relation "measure (\<lambda>(fn, retries, delay, s). nat retries)") auto

declare retry.simps [simp del]

text \<open>The defaults of the signature: \<^verbatim>\<open>retries = 3, delay = 2000\<close>.\<close>

definition retry_default :: "('s \<Rightarrow> (jsval + 'a) \<times> 's) \<Rightarrow> 's \<Rightarrow> 'a settled \<times> 's \<times> event list" where
  "retry_default fn s = retry fn 3 2000 s"

text \<open>Reading a run: its outcome, the number of attempts and the sleeps.\<close>

definition outcome :: "'a settled \<times> 's \<times> event list \<Rightarrow> 'a settled" where
  "outcome run = fst run"

definition attempts :: "'a settled \<times> 's \<times> event list \<Rightarrow> nat" where
  "attempts run = length (filter (\<lambda>e. e = Invoke) (snd (snd run)))"

fun sleep_of :: "event \<Rightarrow> int list" where
  "sleep_of (Sleep d) = [d]"
| "sleep_of e = []"

definition sleeps :: "'a settled \<times> 's \<times> event list \<Rightarrow> int list" where
  "sleeps run = concat (map sleep_of (snd (snd run)))"

text \<open>The attempts and the sleeps of a run in their order, the console output left out.\<close>

fun timed :: "event \<Rightarrow> bool" where
  "timed Invoke = True"
| "timed (Sleep d) = True"
| "timed e = False"

definition schedule :: "'a settled \<times> 's \<times> event list \<Rightarrow> event list" where
  "schedule run = filter timed (snd (snd run))"

text \<open>
  The taxonomy of the specification, read off the order of the branches of \<^verbatim>\<open>retry\<close>.
\<close>

datatype ClassifiedError = PayloadTooLarge | InvalidArgument | QuotaExceeded | Transient | Unknown

definition classify :: "string \<Rightarrow> ClassifiedError" where
  "classify msg =
     (if payload_too_large_marker msg then PayloadTooLarge
      else if invalid_argument_marker msg then InvalidArgument
      else if quota_marker msg then QuotaExceeded
      else if transient_marker msg then Transient
      else Unknown)"

text \<open>An error value is classified through its stringification.\<close>

definition classified :: "jsval \<Rightarrow> ClassifiedError \<Rightarrow> bool" where
  "classified err c \<longleftrightarrow> (case stringification err of Inl e \<Rightarrow> False | Inr msg \<Rightarrow> classify msg = c)"

text \<open>Two operations used in examples: one that always throws the same value, and one
  that replays a script of results and then returns 0.\<close>

definition always_throws :: "jsval \<Rightarrow> unit \<Rightarrow> (jsval + nat) \<times> unit" where
  "always_throws err s = (Inl err, s)"

fun scripted :: "(jsval + nat) list \<Rightarrow> (jsval + nat) \<times> (jsval + nat) list" where
  "scripted [] = (Inr 0, [])"
| "scripted (r # rs) = (r, rs)"


section \<open>Base64\<close>

text \<open>
  \<^verbatim>\<open>window.btoa\<close> takes a binary string (every code unit below 256) and returns its
  base64 encoding with padding (RFC 4648, section 4): the 24 bits of three code units
  are written as four digits of six bits each.
\<close>

definition b64_char :: "nat \<Rightarrow> char" where
  "b64_char n =
     (if n < 26 then char_of (65 + n)
      else if n < 52 then char_of (71 + n)
      else if n < 62 then char_of (n - 4)
      else if n = 62 then CHR ''+''
      else CHR ''/'')"

fun btoa :: "string \<Rightarrow> string" where
  "btoa [] = []"
| "btoa [a] =
     (let x = of_char a
      in [b64_char (x div 4), b64_char (x mod 4 * 16), CHR ''='', CHR ''=''])"
| "btoa [a, b] =
     (let x = of_char a; y = of_char b
      in [b64_char (x div 4), b64_char (x mod 4 * 16 + y div 16), b64_char (y mod 16 * 4),
          CHR ''=''])"
| "btoa (a # b # c # rest) =
     (let x = of_char a; y = of_char b; z = of_char c
      in [b64_char (x div 4), b64_char (x mod 4 * 16 + y div 16),
          b64_char (y mod 16 * 4 + z div 64), b64_char (z mod 64)] @ btoa rest)"

text \<open>
  The decoder the round trip is stated against: the inverse reading of RFC 4648, four
  digits to three code units, with one or two \<open>=\<close> only in the last group. \<open>None\<close> is
  a string that is not base64.
\<close>

definition b64_value :: "char \<Rightarrow> nat option" where
  "b64_value c =
     (let k = (of_char c :: nat)
      in if 65 \<le> k \<and> k \<le> 90 then Some (k - 65)
         else if 97 \<le> k \<and> k \<le> 122 then Some (k - 71)
         else if 48 \<le> k \<and> k \<le> 57 then Some (k + 4)
         else if k = 43 then Some 62
         else if k = 47 then Some 63
         else None)"

fun atob :: "string \<Rightarrow> string option" where
  "atob [] = Some []"
| "atob (w # x # y # z # rest) =
     (case (b64_value w, b64_value x) of
        (Some p, Some q) \<Rightarrow>
          if rest = [] \<and> y = CHR ''='' \<and> z = CHR ''=''
          then Some [char_of (p * 4 + q div 16)]
          else
            (case b64_value y of
               None \<Rightarrow> None
             | Some r \<Rightarrow>
                 if rest = [] \<and> z = CHR ''=''
                 then Some [char_of (p * 4 + q div 16), char_of (q mod 16 * 16 + r div 4)]
                 else
                   (case (b64_value z, atob rest) of
                      (Some t, Some bs) \<Rightarrow>
                        Some (char_of (p * 4 + q div 16) # char_of (q mod 16 * 16 + r div 4)
                                # char_of (r mod 4 * 64 + t) # bs)
                    | _ \<Rightarrow> None))
      | _ \<Rightarrow> None)"
| "atob s = None"

section \<open>Files and the two readers\<close>

type_synonym byte = "8 word"

text \<open>A \<^verbatim>\<open>File\<close>: its bytes and its \<^verbatim>\<open>type\<close> string; \<^verbatim>\<open>file.size\<close> is the number of bytes.\<close>

record File =
  content :: "byte list"
  ftype :: string

definition file_size :: "File \<Rightarrow> nat" where
  "file_size file = length (content file)"

text \<open>\<^verbatim>\<open>file.slice(start, end)\<close> for non-negative offsets: both are clamped to the size.\<close>

definition slice :: "File \<Rightarrow> nat \<Rightarrow> nat \<Rightarrow> byte list" where
  "slice file start end' =
     (let a = min start (file_size file); b = min end' (file_size file)
      in take (b - a) (drop a (content file)))"

text \<open>\<^verbatim>\<open>bytes.subarray(begin, end)\<close>, clamped in the same way.\<close>

definition subarray :: "byte list \<Rightarrow> nat \<Rightarrow> nat \<Rightarrow> byte list" where
  "subarray bytes begin end' =
     (let a = min begin (length bytes); b = min end' (length bytes)
      in take (b - a) (drop a bytes))"

text \<open>\<^verbatim>\<open>String.fromCharCode.apply(null, Array.from(bytes))\<close>: one code unit for each byte.\<close>

definition fromCharCode :: "byte list \<Rightarrow> string" where
  "fromCharCode bytes = map (\<lambda>b. char_of (unat b)) bytes"

text \<open>The bytes of a binary string, \<^verbatim>\<open>Uint8Array.from(s, c => c.charCodeAt(0))\<close>.\<close>

definition charCodes :: "string \<Rightarrow> byte list" where
  "charCodes s = map (\<lambda>c. of_nat (of_char c)) s"

definition MAX_FILE_SIZE :: nat where
  "MAX_FILE_SIZE = 9 * 1024 * 1024"

definition CHUNK_THRESHOLD :: nat where
  "CHUNK_THRESHOLD = 2 * 1024 * 1024"

definition chunkSize :: nat where
  "chunkSize = 1024 * 1024"

definition B64_CHUNK :: nat where
  "B64_CHUNK = 0x8000"

text \<open>
  \<^verbatim>\<open>Math.ceil(file.size / chunkSize)\<close>. The chunk size is a power of two, so the
  division is exact in the source's number type.
\<close>

definition chunk_count :: "File \<Rightarrow> nat" where
  "chunk_count file = (file_size file + chunkSize - 1) div chunkSize"

text \<open>
  \<^verbatim>\<open>Math.round((currentChunk / chunks) * 40)\<close>. \<^verbatim>\<open>Math.round\<close> rounds a half up, so
  for \<open>chunks > 0\<close> the result is the floor of \<open>40 * currentChunk / chunks + 1/2\<close>, computed
  here on exact fractions; the source's floating-point evaluation gives the same
  integer for every chunk count below 80. With \<open>chunks = 0\<close> the quotient is
  \<^verbatim>\<open>Infinity\<close> (or \<^verbatim>\<open>NaN\<close> for \<open>0 / 0\<close>), which \<^verbatim>\<open>Math.round\<close> returns unchanged.
\<close>

definition percent_of :: "nat \<Rightarrow> nat \<Rightarrow> jsnumber" where
  "percent_of currentChunk chunks =
     (if chunks = 0 then (if currentChunk = 0 then NaN else PosInfinity)
      else Integral (int ((80 * currentChunk + chunks) div (2 * chunks))))"

text \<open>
  Combining the chunks: a zeroed buffer of the total length, each part written at the
  running offset (\<^verbatim>\<open>fullBuffer.set(new Uint8Array(part), offset)\<close>).
\<close>

definition set_at :: "byte list \<Rightarrow> byte list \<Rightarrow> nat \<Rightarrow> byte list" where
  "set_at buffer part offset = take offset buffer @ part @ drop (offset + length part) buffer"

fun combine_loop :: "byte list list \<Rightarrow> byte list \<Rightarrow> nat \<Rightarrow> byte list" where
  "combine_loop [] fullBuffer offset = fullBuffer"
| "combine_loop (part # parts) fullBuffer offset =
     combine_loop parts (set_at fullBuffer part offset) (offset + length part)"

definition combine :: "byte list list \<Rightarrow> byte list" where
  "combine resultParts =
     (let totalLen = foldl (\<lambda>acc b. acc + length b) 0 resultParts
      in combine_loop resultParts (replicate totalLen 0) 0)"

text \<open>
  The conversion to a binary string in windows of \<open>B64_CHUNK\<close> bytes:
  \<^verbatim>\<open>for (let i = 0; i < len; i += B64_CHUNK) binary += String.fromCharCode.apply(...)\<close>.
\<close>

function binary_loop :: "byte list \<Rightarrow> nat \<Rightarrow> string \<Rightarrow> string" where
  "binary_loop bytes i binary =
     (if i < length bytes
      then binary_loop bytes (i + B64_CHUNK) (binary @ fromCharCode (subarray bytes i (i + B64_CHUNK)))
      else binary)"
  by pat_completeness auto
termination
  by (relation "measure (\<lambda>(bytes, i, binary). length bytes - i)") (auto simp: B64_CHUNK_def)

declare binary_loop.simps [simp del]

text \<open>
  What the \<^verbatim>\<open>FileReader\<close> does with one read: it fires \<^verbatim>\<open>onload\<close> with the bytes
  of the blob as its result, or \<^verbatim>\<open>onload\<close> with no result (the case the guard
  \<^verbatim>\<open>if (e.target?.result)\<close> of the source skips), or \<^verbatim>\<open>onerror\<close> with an event.
\<close>

datatype 'e reader_event = Onload_result | Onload_no_result | Onerror 'e

text \<open>
  The state of the returned promise. A rejection carries the reader's error event, or
  the \<^verbatim>\<open>Error('Failed to convert file to base64')\<close> of the single-shot reader.
\<close>

datatype 'e read_rejection = Reader_error 'e | Conversion_failed

datatype ('e, 'a) promise = Resolves 'a | Rejects "'e read_rejection" | Pending

text \<open>
  \<^verbatim>\<open>readFileChunked\<close>: \<open>reader i\<close> is the event of the read of chunk \<open>i\<close>. The
  function returns the promise and the values passed to \<^verbatim>\<open>onProgress\<close>, in order.
  \<open>readNextChunk\<close> is the read of one chunk together with its \<^verbatim>\<open>onload\<close> handler.
\<close>

function readNextChunk ::
  "File \<Rightarrow> (nat \<Rightarrow> 'e reader_event) \<Rightarrow> nat \<Rightarrow> byte list list \<Rightarrow> jsnumber list
     \<Rightarrow> ('e, string) promise \<times> jsnumber list" where
  "readNextChunk file reader currentChunk resultParts reported =
     (let chunks = chunk_count file;
          start = currentChunk * chunkSize;
          end' = min (start + chunkSize) (file_size file);
          blob = slice file start end'
      in case reader currentChunk of
           Onerror e \<Rightarrow> (Rejects (Reader_error e), reported)
         | Onload_no_result \<Rightarrow> (Pending, reported)
         | Onload_result \<Rightarrow>
             if currentChunk + 1 < chunks
             then readNextChunk file reader (currentChunk + 1) (resultParts @ [blob])
                    (reported @ [percent_of (currentChunk + 1) chunks])
             else (Resolves (btoa (binary_loop (combine (resultParts @ [blob])) 0 [])),
                   reported @ [percent_of (currentChunk + 1) chunks]))"
  by pat_completeness auto
termination
  by (relation "measure (\<lambda>(file, reader, currentChunk, resultParts, reported).
        chunk_count file - currentChunk)") auto

declare readNextChunk.simps [simp del]

definition readFileChunked ::
  "File \<Rightarrow> (nat \<Rightarrow> 'e reader_event) \<Rightarrow> ('e, string) promise \<times> jsnumber list" where
  "readFileChunked file reader = readNextChunk file reader 0 [] []"

text \<open>
  \<^verbatim>\<open>fileToBase64\<close>: \<^verbatim>\<open>readAsDataURL\<close> yields \<^verbatim>\<open>data:<type>;base64,<payload>\<close>
  with the type of the file as it is (\<^verbatim>\<open>application/octet-stream\<close> when the type is
  empty), and the handler resolves with
  \<^verbatim>\<open>reader.result.split(',')[1]\<close>, which is \<^verbatim>\<open>undefined\<close> (\<open>None\<close>) when there is no
  second piece.
\<close>

definition media_type :: "File \<Rightarrow> string" where
  "media_type file = (if ftype file = [] then ''application/octet-stream'' else ftype file)"

definition readAsDataURL :: "File \<Rightarrow> string" where
  "readAsDataURL file =
     ''data:'' @ media_type file @ '';base64,'' @ btoa (fromCharCode (content file))"

fun split :: "char \<Rightarrow> string \<Rightarrow> string list" where
  "split sep [] = [[]]"
| "split sep (c # cs) =
     (if c = sep then [] # split sep cs
      else (case split sep cs of
              [] \<Rightarrow> [[c]]
            | piece # pieces \<Rightarrow> (c # piece) # pieces))"

fun element :: "'a list \<Rightarrow> nat \<Rightarrow> 'a option" where
  "element [] i = None"
| "element (x # xs) 0 = Some x"
| "element (x # xs) (Suc i) = element xs i"

definition fileToBase64 :: "File \<Rightarrow> 'e reader_event \<Rightarrow> ('e, string option) promise" where
  "fileToBase64 file event =
     (case event of
        Onload_result \<Rightarrow> Resolves (element (split CHR '','' (readAsDataURL file)) 1)
      | Onload_no_result \<Rightarrow> Rejects Conversion_failed
      | Onerror e \<Rightarrow> Rejects (Reader_error e))"

text \<open>
  The dispatch of \<^verbatim>\<open>processFile\<close> for a PDF or audio file: nothing is read from a
  file above \<open>MAX_FILE_SIZE\<close>; a file above \<open>CHUNK_THRESHOLD\<close> goes to the chunked
  reader, any other to the single-shot reader. The result is the promise awaited into
  \<^verbatim>\<open>base64Data\<close>.
\<close>

fun as_value :: "('e, string) promise \<Rightarrow> ('e, string option) promise" where
  "as_value (Resolves b) = Resolves (Some b)"
| "as_value (Rejects r) = Rejects r"
| "as_value Pending = Pending"

definition processFile_base64Data ::
  "File \<Rightarrow> (nat \<Rightarrow> 'e reader_event) \<Rightarrow> 'e reader_event \<Rightarrow> ('e, string option) promise option" where
  "processFile_base64Data selectedFile chunk_reader whole_reader =
     (if file_size selectedFile > MAX_FILE_SIZE then None
      else if file_size selectedFile > CHUNK_THRESHOLD
        then Some (as_value (fst (readFileChunked selectedFile chunk_reader)))
      else Some (fileToBase64 selectedFile whole_reader))"

text \<open>A reader whose every read succeeds, a reader whose read of chunk \<open>k\<close> fails, and a
  file of \<open>n\<close> zero bytes, for examples.\<close>

definition all_loaded :: "nat \<Rightarrow> unit reader_event" where
  "all_loaded i = Onload_result"

definition fails_at :: "nat \<Rightarrow> nat \<Rightarrow> unit reader_event" where
  "fails_at k i = (if i = k then Onerror () else Onload_result)"

definition zeros :: "nat \<Rightarrow> File" where
  "zeros n = \<lparr>content = replicate n 0, ftype = ''application/pdf''\<rparr>"

section \<open>Properties of the executor\<close>

subsection \<open>The stringification step\<close>

lemma js_exception_eq: "(a :: js_exception) = b"
  by (cases a; cases b) simp

lemma serialize_without_BigInt:
  "\<not> holds_BigInt v \<Longrightarrow> \<exists>r. SerializeJSONProperty v = Inr r"
  "\<not> holds_BigInt_elements vs \<Longrightarrow> \<exists>rs. SerializeJSONArray vs = Inr rs"
  "\<not> holds_BigInt_properties ps \<Longrightarrow> \<exists>rs. SerializeJSONObject ps = Inr rs"
  by (induction v and vs and ps rule: SerializeJSONProperty_SerializeJSONArray_SerializeJSONObject.induct)
     auto

lemma serialize_with_BigInt:
  "holds_BigInt v \<Longrightarrow> SerializeJSONProperty v = Inl TypeError"
  "holds_BigInt_elements vs \<Longrightarrow> SerializeJSONArray vs = Inl TypeError"
  "holds_BigInt_properties ps \<Longrightarrow> SerializeJSONObject ps = Inl TypeError"
  by (induction v and vs and ps rule: SerializeJSONProperty_SerializeJSONArray_SerializeJSONObject.induct)
     (auto split: sum.splits intro: js_exception_eq)

lemma serialize_object_defined:
  "typeof v = ''object'' \<Longrightarrow> SerializeJSONProperty v \<noteq> Inr None"
  by (cases v) (auto split: sum.splits)

lemma stringification_defined:
  assumes "if instanceof_Error err then typeof (message err) = ''string''
           else typeof err \<noteq> ''object'' \<or> \<not> holds_BigInt err"
  shows "\<exists>msg. stringification err = Inr msg"
proof (cases "instanceof_Error err")
  case True
  with assms have "typeof (message err) = ''string''" by simp
  then obtain m where "message err = JString m" by (cases "message err") simp_all
  with True show ?thesis by (simp add: stringification_def)
next
  case error: False
  show ?thesis
  proof (cases "typeof err \<noteq> ''object''")
    case True
    with error show ?thesis by (simp add: stringification_def)
  next
    case False
    with assms error have nb: "\<not> holds_BigInt err" and obj: "typeof err = ''object''" by auto
    from serialize_without_BigInt(1) [OF nb] obtain r where r: "SerializeJSONProperty err = Inr r"
      by blast
    with serialize_object_defined [OF obj] obtain s where "r = Some s" by (cases r) auto
    with r error obj show ?thesis by (simp add: stringification_def JSON_stringify_def)
  qed
qed

text \<open>
  The step throws exactly on an \<^verbatim>\<open>Error\<close> whose message is not a string and on the
  objects and arrays that hold a BigInt.
\<close>

lemma stringification_throws_iff:
  "stringification err = Inl TypeError \<longleftrightarrow>
     (if instanceof_Error err then typeof (message err) \<noteq> ''string''
      else typeof err = ''object'' \<and> holds_BigInt err)"
proof (cases "if instanceof_Error err then typeof (message err) = ''string''
              else typeof err \<noteq> ''object'' \<or> \<not> holds_BigInt err")
  case True
  from stringification_defined [OF this] True show ?thesis by (auto split: if_splits)
next
  case False
  show ?thesis
  proof (cases "instanceof_Error err")
    case True
    with False have "typeof (message err) \<noteq> ''string''" by simp
    with True show ?thesis
      by (cases "message err") (simp_all add: stringification_def)
  next
    case error: False
    with False show ?thesis
      by (simp add: stringification_def JSON_stringify_def serialize_with_BigInt)
  qed
qed

text \<open>
  Numbers are printed in plain digits below \<open>10^21\<close> and in exponent notation from
  there on, so a thrown \<open>4.13e21\<close> does not contain \<open>413\<close> and is raised again
  as it is.
\<close>

lemma Number_toString_examples:
  "Number_toString (Integral 429) = ''429''"
  "Number_toString (Integral (- 503)) = ''-503''"
  "Number_toString (Integral 999999999999999999999) = ''999999999999999999999''"
  "Number_toString (Integral 4130000000000000000000) = ''4.13e+21''"
  "Number_toString (Integral (- 1000000000000000000000)) = ''-1e+21''"
  by code_simp+

lemma thrown_large_number_rethrown:
  "retry (always_throws (JNumber (Integral 4130000000000000000000))) 3 2000 ()
     = (Rejected (Rethrown (JNumber (Integral 4130000000000000000000))), (), [Invoke])"
  by code_simp

subsection \<open>Single steps and whole runs\<close>


lemma attempts_after: "attempts (after evs run) = length (filter (\<lambda>e. e = Invoke) evs) + attempts run"
  by (cases run) (simp add: attempts_def)

lemma sleeps_after: "sleeps (after evs run) = concat (map sleep_of evs) @ sleeps run"
  by (cases run) (simp add: sleeps_def)

lemma outcome_after: "outcome (after evs run) = outcome run"
  by (cases run) (simp add: outcome_def)

lemma retry_returns:
  "fn s = (Inr v, s1) \<Longrightarrow> retry fn retries delay s = (Resolved v, s1, [Invoke])"
  by (simp add: retry.simps)

lemma retry_uncaught:
  "fn s = (Inl err, s1) \<Longrightarrow> stringification err = Inl e \<Longrightarrow>
   retry fn retries delay s = (Rejected (Uncaught e), s1, [Invoke])"
  by (simp add: retry.simps)

lemma retry_payload_too_large:
  "fn s = (Inl err, s1) \<Longrightarrow> stringification err = Inr msg \<Longrightarrow> payload_too_large_marker msg \<Longrightarrow>
   retry fn retries delay s = (Rejected FileTooLargeError, s1, [Invoke])"
  by (simp add: retry.simps)

lemma retry_invalid_argument:
  "fn s = (Inl err, s1) \<Longrightarrow> stringification err = Inr msg \<Longrightarrow>
   \<not> payload_too_large_marker msg \<Longrightarrow> invalid_argument_marker msg \<Longrightarrow>
   retry fn retries delay s = (Rejected UnsupportedFormatError, s1, [Invoke])"
  by (simp add: retry.simps)

lemma retry_quota:
  "fn s = (Inl err, s1) \<Longrightarrow> stringification err = Inr msg \<Longrightarrow>
   \<not> payload_too_large_marker msg \<Longrightarrow> \<not> invalid_argument_marker msg \<Longrightarrow> quota_marker msg \<Longrightarrow>
   retry fn retries delay s =
     (if retries > 0
      then after [Invoke, Warn_quota delay, Sleep delay] (retry fn (retries - 1) (delay * 2) s1)
      else (Rejected QuotaExceededError, s1, [Invoke]))"
  by (simp add: retry.simps)

lemma retry_transient:
  "fn s = (Inl err, s1) \<Longrightarrow> stringification err = Inr msg \<Longrightarrow>
   \<not> payload_too_large_marker msg \<Longrightarrow> \<not> invalid_argument_marker msg \<Longrightarrow>
   \<not> quota_marker msg \<Longrightarrow> transient_marker msg \<Longrightarrow>
   retry fn retries delay s =
     (if retries > 0
      then after [Invoke, Warn_retrying retries, Sleep delay] (retry fn (retries - 1) (delay * 2) s1)
      else (Rejected (Rethrown err), s1, [Invoke]))"
  by (simp add: retry.simps)

lemma retry_unknown:
  "fn s = (Inl err, s1) \<Longrightarrow> stringification err = Inr msg \<Longrightarrow>
   \<not> payload_too_large_marker msg \<Longrightarrow> \<not> invalid_argument_marker msg \<Longrightarrow>
   \<not> quota_marker msg \<Longrightarrow> \<not> transient_marker msg \<Longrightarrow>
   retry fn retries delay s = (Rejected (Rethrown err), s1, [Invoke])"
  by (simp add: retry.simps)

lemma classified_QuotaExceeded:
  "classified err QuotaExceeded \<longleftrightarrow>
     (\<exists>msg. stringification err = Inr msg \<and> \<not> payload_too_large_marker msg \<and>
            \<not> invalid_argument_marker msg \<and> quota_marker msg)"
  by (auto simp: classified_def classify_def split: sum.splits)

lemma classified_Transient:
  "classified err Transient \<longleftrightarrow>
     (\<exists>msg. stringification err = Inr msg \<and> \<not> payload_too_large_marker msg \<and>
            \<not> invalid_argument_marker msg \<and> \<not> quota_marker msg \<and> transient_marker msg)"
  by (auto simp: classified_def classify_def split: sum.splits)

lemma backoff_shift:
  "d # map (\<lambda>k. d * 2 * 2 ^ k) [0..<n] = map (\<lambda>k. (d::int) * 2 ^ k) [0..<Suc n]"
proof -
  have "map (\<lambda>k. (d::int) * 2 ^ k) [0..<Suc n] = d * 2 ^ 0 # map (\<lambda>k. d * 2 ^ k) (map Suc [0..<n])"
    by (simp only: upt_conv_Cons [of 0 "Suc n"] map_Suc_upt list.map zero_less_Suc)
  then show ?thesis by (simp add: comp_def mult.assoc)
qed

text \<open>One failed, retried attempt: what is left is the run from the next state.\<close>

lemma retry_retryable_step:
  assumes "fn s = (Inl err, s1)"
    and "classified err QuotaExceeded \<or> classified err Transient"
    and "0 < retries"
  shows "\<exists>w. retry fn retries delay s =
           after [Invoke, w, Sleep delay] (retry fn (retries - 1) (delay * 2) s1) \<and>
           sleep_of w = [] \<and> w \<noteq> Invoke \<and> \<not> timed w"
  using assms
  by (auto simp: classified_QuotaExceeded classified_Transient retry_quota retry_transient)

lemma retry_retryable_last:
  assumes "fn s = (Inl err, s1)"
    and "classified err QuotaExceeded \<or> classified err Transient"
    and "\<not> 0 < retries"
  shows "\<exists>r. retry fn retries delay s = (Rejected r, s1, [Invoke])"
  using assms
  by (auto simp: classified_QuotaExceeded classified_Transient retry_quota retry_transient)

lemma retry_all_retryable:
  assumes fails: "\<forall>s. \<exists>err. fst (fn s) = Inl err \<and> (classified err QuotaExceeded \<or> classified err Transient)"
  shows "attempts (retry fn N d s) = nat N + 1 \<and>
         sleeps (retry fn N d s) = map (\<lambda>k. d * 2 ^ k) [0..<nat N]"
proof (induction "nat N" arbitrary: N d s)
  case 0
  from fails obtain err s1 where f: "fn s = (Inl err, s1)"
    and c: "classified err QuotaExceeded \<or> classified err Transient"
    by (metis prod.collapse)
  from 0 have "\<not> 0 < N" by simp
  from retry_retryable_last [where fn=fn and s=s, OF f c this] obtain r
    where "retry fn N d s = (Rejected r, s1, [Invoke])" by blast
  with 0 show ?case by (simp add: attempts_def sleeps_def)
next
  case (Suc n)
  from fails obtain err s1 where f: "fn s = (Inl err, s1)"
    and c: "classified err QuotaExceeded \<or> classified err Transient"
    by (metis prod.collapse)
  from Suc.hyps have pos: "0 < N" and n: "n = nat (N - 1)" by simp_all
  from retry_retryable_step [where fn=fn and s=s, OF f c pos] obtain w
    where r: "retry fn N d s = after [Invoke, w, Sleep d] (retry fn (N - 1) (d * 2) s1)"
      and w: "sleep_of w = []" "w \<noteq> Invoke" by blast
  from Suc.hyps(1) [OF n, of "d * 2" s1]
  have ih: "attempts (retry fn (N - 1) (d * 2) s1) = n + 1"
    "sleeps (retry fn (N - 1) (d * 2) s1) = map (\<lambda>k. d * 2 * 2 ^ k) [0..<n]"
    using n by simp_all
  have "nat N = Suc n" using Suc.hyps by simp
  then show ?case
    using r w ih backoff_shift [of d n] by (simp add: attempts_after sleeps_after del: upt_Suc)
qed


lemma retry_all_transient_outcome:
  assumes fails: "\<forall>s. fst (fn s) = Inl err" and c: "classified err Transient"
  shows "outcome (retry fn N d s) = Rejected (Rethrown err)"
proof (induction "nat N" arbitrary: N d s)
  case 0
  obtain s1 where f: "fn s = (Inl err, s1)" using fails by (metis prod.collapse)
  from c obtain msg where m: "stringification err = Inr msg" "\<not> payload_too_large_marker msg"
    "\<not> invalid_argument_marker msg" "\<not> quota_marker msg" "transient_marker msg"
    by (auto simp: classified_Transient)
  from 0 have "\<not> 0 < N" by simp
  then show ?case using retry_transient [where fn=fn and s=s, OF f m] by (simp add: outcome_def)
next
  case (Suc n)
  obtain s1 where f: "fn s = (Inl err, s1)" using fails by (metis prod.collapse)
  from c obtain msg where m: "stringification err = Inr msg" "\<not> payload_too_large_marker msg"
    "\<not> invalid_argument_marker msg" "\<not> quota_marker msg" "transient_marker msg"
    by (auto simp: classified_Transient)
  from Suc.hyps have pos: "0 < N" and n: "n = nat (N - 1)" by simp_all
  from Suc.hyps(1) [OF n] pos show ?case
    using retry_transient [where fn=fn and s=s, OF f m] by (simp add: outcome_after)
qed

lemma retry_all_quota_outcome:
  assumes fails: "\<forall>s. \<exists>err. fst (fn s) = Inl err \<and> classified err QuotaExceeded"
  shows "outcome (retry fn N d s) = Rejected QuotaExceededError"
proof (induction "nat N" arbitrary: N d s)
  case 0
  from fails obtain err s1 where f: "fn s = (Inl err, s1)" and c: "classified err QuotaExceeded"
    by (metis prod.collapse)
  from c obtain msg where m: "stringification err = Inr msg" "\<not> payload_too_large_marker msg"
    "\<not> invalid_argument_marker msg" "quota_marker msg"
    by (auto simp: classified_QuotaExceeded)
  from 0 have "\<not> 0 < N" by simp
  then show ?case using retry_quota [where fn=fn and s=s, OF f m] by (simp add: outcome_def)
next
  case (Suc n)
  from fails obtain err s1 where f: "fn s = (Inl err, s1)" and c: "classified err QuotaExceeded"
    by (metis prod.collapse)
  from c obtain msg where m: "stringification err = Inr msg" "\<not> payload_too_large_marker msg"
    "\<not> invalid_argument_marker msg" "quota_marker msg"
    by (auto simp: classified_QuotaExceeded)
  from Suc.hyps have pos: "0 < N" and n: "n = nat (N - 1)" by simp_all
  from Suc.hyps(1) [OF n] pos show ?case
    using retry_quota [where fn=fn and s=s, OF f m] by (simp add: outcome_after)
qed

lemma schedule_after: "schedule (after evs run) = filter timed evs @ schedule run"
  by (cases run) (simp add: schedule_def)

lemma schedule_shift:
  "[Invoke, Sleep d] @ concat (map (\<lambda>k. [Invoke, Sleep (d * 2 * 2 ^ k)]) [0..<n])
     = concat (map (\<lambda>k. [Invoke, Sleep ((d::int) * 2 ^ k)]) [0..<Suc n])"
proof -
  have "map (\<lambda>k. [Invoke, Sleep (d * 2 ^ k)]) [0..<Suc n]
          = [Invoke, Sleep (d * 2 ^ 0)] # map (\<lambda>k. [Invoke, Sleep (d * 2 ^ k)]) (map Suc [0..<n])"
    by (simp only: upt_conv_Cons [of 0 "Suc n"] map_Suc_upt list.map zero_less_Suc)
  then show ?thesis by (simp add: comp_def mult.assoc)
qed

text \<open>
  When every attempt fails with a retried error, a run is the attempts with a sleep
  after each but the last, the sleeps doubling.
\<close>

lemma retry_schedule:
  assumes fails: "\<forall>s. \<exists>err. fst (fn s) = Inl err \<and> (classified err QuotaExceeded \<or> classified err Transient)"
  shows "schedule (retry fn N d s)
           = concat (map (\<lambda>k. [Invoke, Sleep (d * 2 ^ k)]) [0..<nat N]) @ [Invoke]"
proof (induction "nat N" arbitrary: N d s)
  case 0
  from fails obtain err s1 where f: "fn s = (Inl err, s1)"
    and c: "classified err QuotaExceeded \<or> classified err Transient"
    by (metis prod.collapse)
  from 0 have "\<not> 0 < N" by simp
  from retry_retryable_last [where fn=fn and s=s, OF f c this] obtain r
    where "retry fn N d s = (Rejected r, s1, [Invoke])" by blast
  with 0 show ?case by (simp add: schedule_def)
next
  case (Suc n)
  from fails obtain err s1 where f: "fn s = (Inl err, s1)"
    and c: "classified err QuotaExceeded \<or> classified err Transient"
    by (metis prod.collapse)
  from Suc.hyps have pos: "0 < N" and n: "n = nat (N - 1)" by simp_all
  from retry_retryable_step [where fn=fn and s=s, OF f c pos] obtain w
    where r: "retry fn N d s = after [Invoke, w, Sleep d] (retry fn (N - 1) (d * 2) s1)"
      and w: "\<not> timed w" by blast
  from Suc.hyps(1) [OF n, of "d * 2" s1]
  have ih: "schedule (retry fn (N - 1) (d * 2) s1)
              = concat (map (\<lambda>k. [Invoke, Sleep (d * 2 * 2 ^ k)]) [0..<n]) @ [Invoke]"
    using n by simp
  have "nat N = Suc n" using Suc.hyps by simp
  moreover have "schedule (retry fn N d s)
      = ([Invoke, Sleep d] @ concat (map (\<lambda>k. [Invoke, Sleep (d * 2 * 2 ^ k)]) [0..<n])) @ [Invoke]"
    using r w ih by (simp add: schedule_after)
  ultimately show ?case by (simp only: schedule_shift)
qed

text \<open>
  The two scenarios of the specification. Two failures with
  \<open>503 Service Unavailable\<close> and then a success, with 3 retries and 100 ms: the success
  value after three attempts and sleeps of 100 and 200 ms. An operation failing with
  \<open>Invalid Argument: bad mime type\<close>: one attempt, no sleep, the format error.
\<close>

lemma scenario_two_failures_then_success:
  "retry scripted 3 100
     [Inl (new_Error ''503 Service Unavailable''), Inl (new_Error ''503 Service Unavailable''), Inr 7]
   = (Resolved 7, [],
      [Invoke, Warn_retrying 3, Sleep 100, Invoke, Warn_retrying 2, Sleep 200, Invoke])"
  by code_simp

lemma scenario_invalid_argument:
  "retry (always_throws (new_Error ''Invalid Argument: bad mime type'')) 3 2000 ()
   = (Rejected UnsupportedFormatError, (), [Invoke])"
  by code_simp

subsection \<open>Claims about the executor\<close>

text \<open>
  C1, as stated: every payload whose lower-cased stringification contains \<open>429\<close>,
  \<open>quota\<close> or \<open>resource_exhausted\<close> takes the quota branch, whatever else it
  contains. The branches for \<open>413\<close> and \<open>400\<close> come first in \<^verbatim>\<open>retry\<close>: a quota
  message that mentions a limit of 400 is raised at once as an unsupported format.
\<close>

theorem quota_marker_shadowed_counterexample:
  "stringification (new_Error ''429 Too Many Requests: quota limit 400 reached'')
     = Inr ''429 too many requests: quota limit 400 reached'' \<and>
   str_includes ''429 too many requests: quota limit 400 reached'' ''429'' \<and>
   str_includes ''429 too many requests: quota limit 400 reached'' ''quota'' \<and>
   classify ''429 too many requests: quota limit 400 reached'' \<noteq> QuotaExceeded \<and>
   retry (always_throws (new_Error ''429 Too Many Requests: quota limit 400 reached'')) 3 2000 ()
     = (Rejected UnsupportedFormatError, (), [Invoke])"
  by code_simp

text \<open>
  C1, amended: a payload whose lower-cased stringification contains \<open>429\<close>, \<open>quota\<close> or
  \<open>resource_exhausted\<close> and none of the markers of the two earlier branches (\<open>413\<close>,
  \<open>payload too large\<close>, \<open>400\<close>, \<open>invalid argument\<close>) is classified QuotaExceeded and
  takes the quota branch: a sleep of \<open>delay\<close> and a retry with \<open>retries - 1\<close> and the
  doubled delay while \<open>retries > 0\<close>, the terminal quota error otherwise.
\<close>

theorem quota_marker_takes_quota_branch:
  assumes "fn s = (Inl err, s1)"
    and "stringification err = Inr msg"
    and "str_includes msg ''429'' \<or> str_includes msg ''quota'' \<or> str_includes msg ''resource_exhausted''"
    and "\<not> payload_too_large_marker msg"
    and "\<not> invalid_argument_marker msg"
  shows "classify msg = QuotaExceeded \<and>
         retry fn retries delay s =
           (if retries > 0
            then after [Invoke, Warn_quota delay, Sleep delay] (retry fn (retries - 1) (delay * 2) s1)
            else (Rejected QuotaExceededError, s1, [Invoke]))"
proof -
  from assms(3) have q: "quota_marker msg" by (auto simp: quota_marker_def)
  with assms(4,5) have "classify msg = QuotaExceeded" by (simp add: classify_def)
  moreover note retry_quota [where fn=fn and s=s, OF assms(1,2,4,5) q]
  ultimately show ?thesis by simp
qed

theorem quota_marker_takes_quota_branch_witness:
  "scripted [Inl (JString ''RESOURCE_EXHAUSTED''), Inr 7] = (Inl (JString ''RESOURCE_EXHAUSTED''), [Inr 7]) \<and>
   stringification (JString ''RESOURCE_EXHAUSTED'') = Inr ''resource_exhausted'' \<and>
   str_includes ''resource_exhausted'' ''resource_exhausted'' \<and>
   \<not> payload_too_large_marker ''resource_exhausted'' \<and>
   \<not> invalid_argument_marker ''resource_exhausted'' \<and>
   classify ''resource_exhausted'' = QuotaExceeded \<and>
   retry scripted 0 2000 [Inl (JString ''RESOURCE_EXHAUSTED''), Inr 7]
     = (Rejected QuotaExceededError, [Inr 7], [Invoke]) \<and>
   retry scripted 1 2000 [Inl (JString ''RESOURCE_EXHAUSTED''), Inr 7]
     = after [Invoke, Warn_quota 2000, Sleep 2000] (retry scripted 0 4000 [Inr 7])"
proof -
  have h1: "scripted [Inl (JString ''RESOURCE_EXHAUSTED''), Inr 7] = (Inl (JString ''RESOURCE_EXHAUSTED''), [Inr 7])"
    by simp
  have h2: "stringification (JString ''RESOURCE_EXHAUSTED'') = Inr ''resource_exhausted''"
    by code_simp
  have h3: "str_includes ''resource_exhausted'' ''429'' \<or> str_includes ''resource_exhausted'' ''quota''
      \<or> str_includes ''resource_exhausted'' ''resource_exhausted''"
    by code_simp
  have h4: "\<not> payload_too_large_marker ''resource_exhausted''" by code_simp
  have h5: "\<not> invalid_argument_marker ''resource_exhausted''" by code_simp
  have h6: "str_includes ''resource_exhausted'' ''resource_exhausted''" by code_simp
  show ?thesis
    using quota_marker_takes_quota_branch [where fn=scripted and retries=0 and delay=2000, OF h1 h2 h3 h4 h5]
      quota_marker_takes_quota_branch [where fn=scripted and retries=1 and delay=2000, OF h1 h2 h3 h4 h5]
      h1 h2 h4 h5 h6
    by simp
qed

text \<open>
  C2, as stated: an operation that always fails with an error containing a Transient
  marker is attempted \<open>N + 1\<close> times and the original error is raised. An error that
  also contains a marker of an earlier branch is handled by that branch: here the
  request id contains \<open>413\<close>, and the executor stops after one attempt with a
  \<^verbatim>\<open>FileTooLargeError\<close>.
\<close>

theorem transient_marker_shadowed_counterexample:
  "stringification (new_Error ''503 Service Unavailable (request id 4130)'')
     = Inr ''503 service unavailable (request id 4130)'' \<and>
   transient_marker ''503 service unavailable (request id 4130)'' \<and>
   attempts (retry (always_throws (new_Error ''503 Service Unavailable (request id 4130)'')) 3 2000 ())
     \<noteq> nat 3 + 1 \<and>
   outcome (retry (always_throws (new_Error ''503 Service Unavailable (request id 4130)'')) 3 2000 ())
     \<noteq> Rejected (Rethrown (new_Error ''503 Service Unavailable (request id 4130)''))"
  by code_simp

text \<open>
  C2, amended: for \<open>maxRetries = N \<ge> 0\<close> and an operation that always fails with an
  error whose lower-cased stringification contains a Transient marker and no marker of
  the three earlier branches (PayloadTooLarge, InvalidArgument, QuotaExceeded), the
  operation is invoked exactly \<open>N + 1\<close> times and the executor raises the error it
  caught, unchanged.
\<close>

theorem transient_exhaustion_rethrows_original:
  assumes "0 \<le> N"
    and "\<forall>s. fst (fn s) = Inl err"
    and "stringification err = Inr msg"
    and "transient_marker msg"
    and "\<not> payload_too_large_marker msg"
    and "\<not> invalid_argument_marker msg"
    and "\<not> quota_marker msg"
  shows "attempts (retry fn N delay s) = nat N + 1 \<and>
         outcome (retry fn N delay s) = Rejected (Rethrown err)"
proof -
  have c: "classified err Transient"
    using assms(3-7) by (auto simp: classified_Transient)
  with assms(2) have "\<forall>s. \<exists>e. fst (fn s) = Inl e \<and> (classified e QuotaExceeded \<or> classified e Transient)"
    by blast
  from retry_all_retryable [OF this] retry_all_transient_outcome [OF assms(2) c]
  show ?thesis by blast
qed

theorem transient_exhaustion_rethrows_original_witness:
  "(0::int) \<le> 3 \<and>
   (\<forall>s. fst (always_throws (new_Error ''503 Service Unavailable'') s) = Inl (new_Error ''503 Service Unavailable'')) \<and>
   stringification (new_Error ''503 Service Unavailable'') = Inr ''503 service unavailable'' \<and>
   transient_marker ''503 service unavailable'' \<and>
   \<not> payload_too_large_marker ''503 service unavailable'' \<and>
   \<not> invalid_argument_marker ''503 service unavailable'' \<and>
   \<not> quota_marker ''503 service unavailable'' \<and>
   attempts (retry (always_throws (new_Error ''503 Service Unavailable'')) 3 2000 ()) = 4 \<and>
   outcome (retry (always_throws (new_Error ''503 Service Unavailable'')) 3 2000 ())
     = Rejected (Rethrown (new_Error ''503 Service Unavailable''))"
proof -
  have h1: "(0::int) \<le> 3" by simp
  have h2: "\<forall>s. fst (always_throws (new_Error ''503 Service Unavailable'') s) = Inl (new_Error ''503 Service Unavailable'')"
    by (simp add: always_throws_def)
  have h3: "stringification (new_Error ''503 Service Unavailable'') = Inr ''503 service unavailable''"
    by code_simp
  have h4: "transient_marker ''503 service unavailable''" by code_simp
  have h5: "\<not> payload_too_large_marker ''503 service unavailable''" by code_simp
  have h6: "\<not> invalid_argument_marker ''503 service unavailable''" by code_simp
  have h7: "\<not> quota_marker ''503 service unavailable''" by code_simp
  show ?thesis
    using transient_exhaustion_rethrows_original [OF h1 h2 h3 h4 h5 h6 h7, of 2000 "()"] h2 h3 h4 h5 h6 h7
    by simp
qed

text \<open>
  C5: an error whose lower-cased stringification contains \<open>413\<close> or
  \<open>payload too large\<close> is classified PayloadTooLarge, and for every \<open>maxRetries\<close> and
  delay the executor raises the terminal error after exactly one invocation, without
  sleeping.
\<close>

theorem payload_too_large_never_retried:
  assumes "fn s = (Inl err, s1)"
    and "stringification err = Inr msg"
    and "str_includes msg ''413'' \<or> str_includes msg ''payload too large''"
  shows "classify msg = PayloadTooLarge \<and>
         retry fn maxRetries delay s = (Rejected FileTooLargeError, s1, [Invoke]) \<and>
         attempts (retry fn maxRetries delay s) = 1 \<and>
         sleeps (retry fn maxRetries delay s) = []"
proof -
  from assms(3) have p: "payload_too_large_marker msg" by (simp add: payload_too_large_marker_def)
  then have "classify msg = PayloadTooLarge" by (simp add: classify_def)
  moreover note retry_payload_too_large [where fn=fn and s=s, OF assms(1,2) p]
  ultimately show ?thesis by (simp add: attempts_def sleeps_def)
qed

theorem payload_too_large_never_retried_witness:
  "always_throws (new_Error ''Request failed with status 413 (Payload Too Large)'') ()
     = (Inl (new_Error ''Request failed with status 413 (Payload Too Large)''), ()) \<and>
   stringification (new_Error ''Request failed with status 413 (Payload Too Large)'')
     = Inr ''request failed with status 413 (payload too large)'' \<and>
   str_includes ''request failed with status 413 (payload too large)'' ''413'' \<and>
   classify ''request failed with status 413 (payload too large)'' = PayloadTooLarge \<and>
   retry (always_throws (new_Error ''Request failed with status 413 (Payload Too Large)'')) 5 4000 ()
     = (Rejected FileTooLargeError, (), [Invoke])"
proof -
  let ?e = "new_Error ''Request failed with status 413 (Payload Too Large)''"
  let ?m = "''request failed with status 413 (payload too large)''"
  have h1: "always_throws ?e () = (Inl ?e, ())" by (simp add: always_throws_def)
  have h2: "stringification ?e = Inr ?m" by code_simp
  have h3: "str_includes ?m ''413''" by code_simp
  then have h4: "str_includes ?m ''413'' \<or> str_includes ?m ''payload too large''" by simp
  show ?thesis
    using payload_too_large_never_retried
      [where fn="always_throws ?e" and s="()" and maxRetries=5 and delay=4000, OF h1 h2 h4] h1 h2 h3
    by simp
qed

text \<open>
  C6, as stated: an operation that keeps failing with a retryable marker sleeps 2000,
  4000 and 8000 ms under the default policy. An error that carries a retryable marker
  and a marker of one of the two terminal branches is not retried at all: here the
  message contains \<open>fetch failed\<close> and \<open>400\<close>, and the run is one attempt without any
  sleep.
\<close>

theorem retryable_marker_shadowed_counterexample:
  "stringification (new_Error ''fetch failed (HTTP 400)'') = Inr ''fetch failed (http 400)'' \<and>
   transient_marker ''fetch failed (http 400)'' \<and>
   schedule (retry (always_throws (new_Error ''fetch failed (HTTP 400)'')) 3 2000 ()) = [Invoke] \<and>
   sleeps (retry (always_throws (new_Error ''fetch failed (HTTP 400)'')) 3 2000 ()) = []"
  by code_simp

text \<open>
  C6, amended: when every attempt fails with an error whose lower-cased stringification
  contains a retryable marker (one of the QuotaExceeded or Transient markers) and no
  marker of the two terminal branches (\<open>413\<close>, \<open>payload too large\<close>, \<open>400\<close>,
  \<open>invalid argument\<close>), a run with \<open>maxRetries\<close> retries is \<open>maxRetries + 1\<close> attempts
  with one sleep between each two successive attempts, and the sleep before retry \<open>n\<close>
  lasts \<open>initialDelayMs * 2 ^ (n - 1)\<close>; for 2000 ms and 3 retries the sleeps are 2000,
  4000 and 8000 ms.
\<close>

theorem backoff_schedule:
  assumes "\<forall>s. \<exists>err msg. fst (fn s) = Inl err \<and> stringification err = Inr msg \<and>
             (quota_marker msg \<or> transient_marker msg) \<and>
             \<not> payload_too_large_marker msg \<and> \<not> invalid_argument_marker msg"
  shows "schedule (retry fn maxRetries initialDelayMs s)
           = concat (map (\<lambda>n. [Invoke, Sleep (initialDelayMs * 2 ^ (n - 1))]) [1..<nat maxRetries + 1])
             @ [Invoke] \<and>
         sleeps (retry fn maxRetries initialDelayMs s)
           = map (\<lambda>n. initialDelayMs * 2 ^ (n - 1)) [1..<nat maxRetries + 1] \<and>
         attempts (retry fn maxRetries initialDelayMs s) = nat maxRetries + 1"
proof -
  have fails: "\<forall>s. \<exists>err. fst (fn s) = Inl err \<and> (classified err QuotaExceeded \<or> classified err Transient)"
  proof
    fix s
    from assms obtain err msg where e: "fst (fn s) = Inl err" "stringification err = Inr msg"
      "quota_marker msg \<or> transient_marker msg"
      "\<not> payload_too_large_marker msg" "\<not> invalid_argument_marker msg"
      by blast
    then have "classified err QuotaExceeded \<or> classified err Transient"
      by (auto simp: classified_def classify_def)
    with e(1) show "\<exists>err. fst (fn s) = Inl err \<and> (classified err QuotaExceeded \<or> classified err Transient)"
      by blast
  qed
  have up: "[1..<nat maxRetries + 1] = map Suc [0..<nat maxRetries]"
    by (simp add: map_Suc_upt del: upt_Suc)
  have "map (\<lambda>n. initialDelayMs * 2 ^ (n - 1)) [1..<nat maxRetries + 1]
          = map (\<lambda>k. initialDelayMs * 2 ^ k) [0..<nat maxRetries]"
    unfolding up by (simp add: comp_def del: upt_Suc)
  moreover have "map (\<lambda>n. [Invoke, Sleep (initialDelayMs * 2 ^ (n - 1))]) [1..<nat maxRetries + 1]
          = map (\<lambda>k. [Invoke, Sleep (initialDelayMs * 2 ^ k)]) [0..<nat maxRetries]"
    unfolding up by (simp add: comp_def del: upt_Suc)
  ultimately show ?thesis
    using retry_all_retryable [OF fails, of maxRetries initialDelayMs s]
      retry_schedule [OF fails, of maxRetries initialDelayMs s]
    by (simp del: upt_Suc)
qed

theorem backoff_schedule_witness:
  "stringification (new_Error ''fetch failed'') = Inr ''fetch failed'' \<and>
   transient_marker ''fetch failed'' \<and>
   \<not> payload_too_large_marker ''fetch failed'' \<and>
   \<not> invalid_argument_marker ''fetch failed'' \<and>
   schedule (retry_default (always_throws (new_Error ''fetch failed'')) ())
     = [Invoke, Sleep 2000, Invoke, Sleep 4000, Invoke, Sleep 8000, Invoke] \<and>
   sleeps (retry_default (always_throws (new_Error ''fetch failed'')) ()) = [2000, 4000, 8000] \<and>
   attempts (retry_default (always_throws (new_Error ''fetch failed'')) ()) = 4"
proof -
  have m: "stringification (new_Error ''fetch failed'') = Inr ''fetch failed''"
    "transient_marker ''fetch failed''"
    "\<not> payload_too_large_marker ''fetch failed''"
    "\<not> invalid_argument_marker ''fetch failed''"
    by code_simp+
  then have h: "\<forall>s. \<exists>err msg. fst (always_throws (new_Error ''fetch failed'') s) = Inl err \<and>
       stringification err = Inr msg \<and> (quota_marker msg \<or> transient_marker msg) \<and>
       \<not> payload_too_large_marker msg \<and> \<not> invalid_argument_marker msg"
    by (simp add: always_throws_def)
  have "concat (map (\<lambda>n. [Invoke, Sleep ((2000::int) * 2 ^ (n - 1))]) [1..<nat 3 + 1]) @ [Invoke]
          = [Invoke, Sleep 2000, Invoke, Sleep 4000, Invoke, Sleep 8000, Invoke]"
    "map (\<lambda>n. (2000::int) * 2 ^ (n - 1)) [1..<nat 3 + 1] = [2000, 4000, 8000]"
    by code_simp+
  with backoff_schedule [OF h, of 3 2000 "()"] m show ?thesis
    by (simp add: retry_default_def)
qed

text \<open>
  C7: when every attempt fails with an error classified QuotaExceeded, the run makes
  \<open>maxRetries + 1\<close> attempts and ends with the executor's own quota error, which is
  neither the caught error nor the error of another branch.
\<close>

theorem quota_exhaustion_raises_quota_error:
  assumes "\<forall>s. \<exists>err. fst (fn s) = Inl err \<and> classified err QuotaExceeded"
  shows "outcome (retry fn maxRetries delay s) = Rejected QuotaExceededError \<and>
         attempts (retry fn maxRetries delay s) = nat maxRetries + 1 \<and>
         (\<forall>err. outcome (retry fn maxRetries delay s) \<noteq> Rejected (Rethrown err)) \<and>
         outcome (retry fn maxRetries delay s) \<noteq> Rejected FileTooLargeError \<and>
         outcome (retry fn maxRetries delay s) \<noteq> Rejected UnsupportedFormatError"
proof -
  from assms have "\<forall>s. \<exists>e. fst (fn s) = Inl e \<and> (classified e QuotaExceeded \<or> classified e Transient)"
    by blast
  from retry_all_retryable [OF this] retry_all_quota_outcome [OF assms]
  show ?thesis by simp
qed

theorem quota_exhaustion_raises_quota_error_witness:
  "(\<forall>s. \<exists>err. fst (always_throws (JNumber (Integral 429)) s) = Inl err \<and> classified err QuotaExceeded) \<and>
   outcome (retry (always_throws (JNumber (Integral 429))) 3 2000 ()) = Rejected QuotaExceededError \<and>
   attempts (retry (always_throws (JNumber (Integral 429))) 3 2000 ()) = 4"
proof -
  have c: "classified (JNumber (Integral 429)) QuotaExceeded" by code_simp
  then have h: "\<forall>s. \<exists>err. fst (always_throws (JNumber (Integral 429)) s) = Inl err \<and> classified err QuotaExceeded"
    by (simp add: always_throws_def)
  from quota_exhaustion_raises_quota_error [OF h, of 3 2000 "()"] h show ?thesis by simp
qed

text \<open>
  C8, as stated: the stringification step completes for every thrown value. A thrown
  object is passed to \<^verbatim>\<open>JSON.stringify\<close>, which throws a \<^verbatim>\<open>TypeError\<close> when the
  object holds a BigInt, and the message of a thrown \<^verbatim>\<open>Error\<close> is lower-cased as it
  is, which throws a \<^verbatim>\<open>TypeError\<close> when the message is not a string. The exception
  leaves the \<^verbatim>\<open>catch\<close> block before any branch is reached, and the executor raises it
  in place of a classified error.
\<close>

theorem stringification_throws_counterexample:
  "typeof (JObject [(''code'', JBigInt 429)]) = ''object'' \<and>
   stringification (JObject [(''code'', JBigInt 429)]) = Inl TypeError \<and>
   retry (always_throws (JObject [(''code'', JBigInt 429)])) 3 2000 ()
     = (Rejected (Uncaught TypeError), (), [Invoke]) \<and>
   instanceof_Error (JError (JNumber (Integral 429))) \<and>
   stringification (JError (JNumber (Integral 429))) = Inl TypeError \<and>
   retry (always_throws (JError (JNumber (Integral 429)))) 3 2000 ()
     = (Rejected (Uncaught TypeError), (), [Invoke])"
  by code_simp

text \<open>
  C8, amended: the stringification step completes with a string for every thrown
  \<^verbatim>\<open>Error\<close> whose message is a string, and for every thrown value that is not an
  \<^verbatim>\<open>Error\<close> and either is not of type \<^verbatim>\<open>object\<close> or holds no BigInt. The second
  part covers the values that are not an \<^verbatim>\<open>Error\<close>, not a string and not a plain
  object: \<^verbatim>\<open>undefined\<close>, \<^verbatim>\<open>null\<close>, booleans, numbers, BigInts, symbols and
  functions, and the arrays that hold no BigInt.
\<close>

theorem stringification_completes:
  assumes "if instanceof_Error err then typeof (message err) = ''string''
           else typeof err \<noteq> ''object'' \<or> \<not> holds_BigInt err"
  shows "\<exists>msg. stringification err = Inr msg"
  using assms by (rule stringification_defined)

theorem stringification_completes_witness:
  "\<not> instanceof_Error (JSymbol ''quota'') \<and>
   typeof (JSymbol ''quota'') \<noteq> ''object'' \<and>
   stringification (JSymbol ''quota'') = Inr ''symbol(quota)'' \<and>
   \<not> instanceof_Error (JArray [JUndefined, JNumber (Integral 503)]) \<and>
   \<not> holds_BigInt (JArray [JUndefined, JNumber (Integral 503)]) \<and>
   stringification (JArray [JUndefined, JNumber (Integral 503)]) = Inr ''[null,503]'' \<and>
   instanceof_Error (new_Error ''Quota'') \<and>
   typeof (message (new_Error ''Quota'')) = ''string'' \<and>
   stringification (new_Error ''Quota'') = Inr ''quota''"
proof -
  have h1: "if instanceof_Error (JSymbol ''quota'') then typeof (message (JSymbol ''quota'')) = ''string''
            else typeof (JSymbol ''quota'') \<noteq> ''object'' \<or> \<not> holds_BigInt (JSymbol ''quota'')"
    by simp
  have h2: "if instanceof_Error (JArray [JUndefined, JNumber (Integral 503)])
            then typeof (message (JArray [JUndefined, JNumber (Integral 503)])) = ''string''
            else typeof (JArray [JUndefined, JNumber (Integral 503)]) \<noteq> ''object'' \<or>
                 \<not> holds_BigInt (JArray [JUndefined, JNumber (Integral 503)])"
    by simp
  have h3: "if instanceof_Error (new_Error ''Quota'') then typeof (message (new_Error ''Quota'')) = ''string''
            else typeof (new_Error ''Quota'') \<noteq> ''object'' \<or> \<not> holds_BigInt (new_Error ''Quota'')"
    by simp
  have e1: "stringification (JSymbol ''quota'') = Inr ''symbol(quota)''" by code_simp
  have e2: "stringification (JArray [JUndefined, JNumber (Integral 503)]) = Inr ''[null,503]''"
    by code_simp
  have e3: "stringification (new_Error ''Quota'') = Inr ''quota''" by code_simp
  from stringification_completes [OF h1] stringification_completes [OF h2]
    stringification_completes [OF h3] e1 e2 e3
  show ?thesis by simp
qed

section \<open>Properties of the readers\<close>

subsection \<open>Base64\<close>

lemma b64_value_char: "n < 64 \<Longrightarrow> b64_value (b64_char n) = Some n"
  by (auto simp: b64_char_def b64_value_def Let_def)

lemma b64_char_not_pad: "n < 64 \<Longrightarrow> b64_char n \<noteq> CHR ''=''"
  by (auto simp: b64_char_def char_of_eq_iff take_bit_eq_mod)

lemma b64_char_not_comma: "n < 64 \<Longrightarrow> b64_char n \<noteq> CHR '',''"
  by (auto simp: b64_char_def char_of_eq_iff take_bit_eq_mod)

lemma sextet_bounds:
  fixes x y z :: nat
  assumes "x < 256" "y < 256" "z < 256"
  shows "x div 4 < 64" "x mod 4 * 16 < 64" "x mod 4 * 16 + y div 16 < 64"
    "y mod 16 * 4 < 64" "y mod 16 * 4 + z div 64 < 64" "z mod 64 < 64"
  using assms by auto

lemma digit_pair:
  fixes a b n :: nat
  assumes "b < n"
  shows "(a * n + b) div n = a" "(a * n + b) mod n = b"
  using assms by simp_all

lemma sextets_inverse:
  fixes x y z :: nat
  assumes "x < 256" "y < 256" "z < 256"
  shows "x div 4 * 4 + (x mod 4 * 16) div 16 = x"
    "x div 4 * 4 + (x mod 4 * 16 + y div 16) div 16 = x"
    "(x mod 4 * 16 + y div 16) mod 16 * 16 + (y mod 16 * 4) div 4 = y"
    "(x mod 4 * 16 + y div 16) mod 16 * 16 + (y mod 16 * 4 + z div 64) div 4 = y"
    "(y mod 16 * 4 + z div 64) mod 4 * 64 + z mod 64 = z"
proof -
  have hi: "y div 16 < 16" "z div 64 < 4"
    using assms by (simp_all add: less_mult_imp_div_less)
  then have lo: "y div 16 mod 16 = y div 16" "z div 64 mod 4 = z div 64"
    by simp_all
  show "x div 4 * 4 + (x mod 4 * 16) div 16 = x" by simp
  show "x div 4 * 4 + (x mod 4 * 16 + y div 16) div 16 = x"
    by (simp add: digit_pair(1) [OF hi(1)])
  show "(x mod 4 * 16 + y div 16) mod 16 * 16 + (y mod 16 * 4) div 4 = y"
    by (simp add: lo)
  show "(x mod 4 * 16 + y div 16) mod 16 * 16 + (y mod 16 * 4 + z div 64) div 4 = y"
    by (simp add: lo digit_pair(1) [OF hi(2)])
  show "(y mod 16 * 4 + z div 64) mod 4 * 64 + z mod 64 = z"
    by (simp add: lo)
qed

lemma atob_btoa: "atob (btoa s) = Some s"
proof (induction s rule: btoa.induct)
  case 1
  show ?case by simp
next
  case (2 a)
  have x: "(of_char a :: nat) < 256" by simp
  show ?case
    using sextet_bounds [OF x x x] sextets_inverse(1) [OF x x x]
    by (simp add: Let_def b64_value_char)
next
  case (3 a b)
  have x: "(of_char a :: nat) < 256" and y: "(of_char b :: nat) < 256" by simp_all
  show ?case
    using sextet_bounds [OF x y y] sextets_inverse(2,3) [OF x y y]
    by (simp add: Let_def b64_value_char b64_char_not_pad)
next
  case (4 a b c rest)
  have x: "(of_char a :: nat) < 256" and y: "(of_char b :: nat) < 256"
    and z: "(of_char c :: nat) < 256" by simp_all
  show ?case
    using sextet_bounds [OF x y z] sextets_inverse(2,4,5) [OF x y z] 4
    by (simp add: Let_def b64_value_char b64_char_not_pad)
qed

lemma btoa_no_comma: "CHR '','' \<notin> set (btoa s)"
proof (induction s rule: btoa.induct)
  case 1
  show ?case by simp
next
  case (2 a)
  have x: "(of_char a :: nat) < 256" by simp
  show ?case using sextet_bounds [OF x x x] by (simp add: Let_def b64_char_not_comma [symmetric])
next
  case (3 a b)
  have x: "(of_char a :: nat) < 256" and y: "(of_char b :: nat) < 256" by simp_all
  show ?case using sextet_bounds [OF x y y] by (simp add: Let_def b64_char_not_comma [symmetric])
next
  case (4 a b c rest)
  have x: "(of_char a :: nat) < 256" and y: "(of_char b :: nat) < 256"
    and z: "(of_char c :: nat) < 256" by simp_all
  show ?case using sextet_bounds [OF x y z] 4 by (simp add: Let_def b64_char_not_comma [symmetric])
qed

lemma charCodes_fromCharCode: "charCodes (fromCharCode bytes) = bytes"
proof -
  have "(of_nat (of_char (char_of (unat b))) :: byte) = b" for b :: byte
  proof -
    have "unat b < 256" using unsigned_less [of b] by simp
    then show ?thesis by simp
  qed
  then show ?thesis by (simp add: charCodes_def fromCharCode_def comp_def)
qed

subsection \<open>Combining and converting the chunks\<close>

lemma foldl_lengths: "foldl (\<lambda>acc b. acc + length b) n parts = n + length (concat parts)"
  by (induction parts arbitrary: n) simp_all

lemma combine_loop_concat:
  "offset + length (concat parts) \<le> length buffer \<Longrightarrow>
   combine_loop parts buffer offset
     = take offset buffer @ concat parts @ drop (offset + length (concat parts)) buffer"
proof (induction parts arbitrary: buffer offset)
  case Nil
  then show ?case by simp
next
  case (Cons part parts)
  let ?b = "set_at buffer part offset"
  from Cons.prems have len: "offset + length part + length (concat parts) \<le> length buffer"
    by simp
  then have l: "length ?b = length buffer" by (simp add: set_at_def)
  have t: "take (offset + length part) ?b = take offset buffer @ part"
    using len by (simp add: set_at_def)
  have d: "drop (offset + length part + length (concat parts)) ?b
             = drop (offset + length part + length (concat parts)) buffer"
    using len by (simp add: set_at_def ac_simps)
  from Cons.IH [of "offset + length part" ?b] len l t d show ?case by (simp add: add.assoc)
qed

lemma combine_concat: "combine parts = concat parts"
  by (simp add: combine_def Let_def foldl_lengths combine_loop_concat)

lemma subarray_window: "subarray bytes i (i + n) = take n (drop i bytes)"
  by (auto simp: subarray_def Let_def min_def)

lemma binary_loop_from: "binary_loop bytes i binary = binary @ fromCharCode (drop i bytes)"
proof (induction bytes i binary rule: binary_loop.induct)
  case (1 bytes i binary)
  show ?case
  proof (cases "i < length bytes")
    case True
    have "take B64_CHUNK (drop i bytes) @ drop (i + B64_CHUNK) bytes = drop i bytes"
      by (metis add.commute append_take_drop_id drop_drop)
    then have "fromCharCode (take B64_CHUNK (drop i bytes)) @ fromCharCode (drop (i + B64_CHUNK) bytes)
                 = fromCharCode (drop i bytes)"
      by (metis fromCharCode_def map_append)
    with 1 True show ?thesis
      by (subst binary_loop.simps) (simp add: subarray_window)
  next
    case False
    then show ?thesis by (subst binary_loop.simps) (simp add: fromCharCode_def)
  qed
qed

lemma binary_of_parts: "binary_loop (combine parts) 0 [] = fromCharCode (concat parts)"
  by (simp add: binary_loop_from combine_concat)

subsection \<open>The chunk loop\<close>

lemma chunk_cover: "file_size file \<le> chunk_count file * chunkSize"
proof -
  have pos: "0 < chunkSize" by (simp add: chunkSize_def)
  let ?m = "file_size file + chunkSize - 1"
  have "?m div chunkSize * chunkSize + ?m mod chunkSize = ?m" by simp
  moreover have "?m mod chunkSize < chunkSize" using pos by simp
  ultimately have "file_size file \<le> ?m div chunkSize * chunkSize" by linarith
  then show ?thesis by (simp add: chunk_count_def)
qed

lemma chunk_count_pos: "0 < file_size file \<Longrightarrow> 0 < chunk_count file"
  by (simp add: chunk_count_def chunkSize_def)

lemma chunk_count_le: "file_size file \<le> n * chunkSize \<Longrightarrow> chunk_count file \<le> n"
proof -
  assume "file_size file \<le> n * chunkSize"
  then have "file_size file + chunkSize - 1 < (n + 1) * chunkSize"
    by (simp add: chunkSize_def)
  then have "(file_size file + chunkSize - 1) div chunkSize < n + 1"
    by (simp add: less_mult_imp_div_less)
  then show ?thesis by (simp add: chunk_count_def)
qed

lemma slice_extends:
  "take a (content file) @ slice file a (min (a + n) (file_size file)) = take (a + n) (content file)"
proof (cases "a \<le> file_size file")
  case True
  then have "slice file a (min (a + n) (file_size file))
               = take (min (a + n) (file_size file) - a) (drop a (content file))"
    by (simp add: slice_def Let_def min_def)
  then have "take a (content file) @ slice file a (min (a + n) (file_size file))
               = take (a + (min (a + n) (file_size file) - a)) (content file)"
    by (simp add: take_add)
  also have "a + (min (a + n) (file_size file) - a) = min (a + n) (file_size file)"
    using True by simp
  also have "take (min (a + n) (file_size file)) (content file) = take (a + n) (content file)"
    by (simp add: file_size_def min_def)
  finally show ?thesis .
next
  case False
  then show ?thesis by (simp add: slice_def Let_def file_size_def)
qed

lemma readNextChunk_all_loaded:
  assumes "\<forall>i. currentChunk \<le> i \<and> i < max (chunk_count file) (currentChunk + 1) \<longrightarrow> reader i = Onload_result"
    and "concat resultParts = take (currentChunk * chunkSize) (content file)"
  shows "readNextChunk file reader currentChunk resultParts reported =
           (Resolves (btoa (fromCharCode (content file))),
            reported @ map (\<lambda>k. percent_of k (chunk_count file))
                         [currentChunk + 1 ..< max (chunk_count file) (currentChunk + 1) + 1])"
  using assms
proof (induction "chunk_count file - (currentChunk + 1)" arbitrary: currentChunk resultParts reported)
  case 0
  then have last: "\<not> currentChunk + 1 < chunk_count file" by simp
  from "0.prems"(1) have ev: "reader currentChunk = Onload_result" by simp
  have "concat (resultParts @ [slice file (currentChunk * chunkSize)
          (min (currentChunk * chunkSize + chunkSize) (file_size file))])
        = take (currentChunk * chunkSize + chunkSize) (content file)"
    using "0.prems"(2) by (simp add: slice_extends)
  also have "\<dots> = content file"
  proof -
    have "chunk_count file * chunkSize \<le> (currentChunk + 1) * chunkSize"
      using last by (intro mult_le_mono1) simp
    with chunk_cover [of "file"] have "length (content file) \<le> currentChunk * chunkSize + chunkSize"
      by (simp add: file_size_def)
    then show ?thesis by simp
  qed
  finally have whole: "concat (resultParts @ [slice file (currentChunk * chunkSize)
          (min (currentChunk * chunkSize + chunkSize) (file_size file))]) = content file" .
  from last have m: "max (chunk_count file) (currentChunk + 1) = currentChunk + 1" by simp
  show ?case
    using ev last whole m
    by (subst readNextChunk.simps) (simp add: Let_def binary_of_parts del: concat_append)
next
  case (Suc d)
  then have more: "currentChunk + 1 < chunk_count file" by simp
  from Suc.prems(1) have ev: "reader currentChunk = Onload_result" by simp
  have "(currentChunk + 1) * chunkSize = currentChunk * chunkSize + chunkSize" by simp
  then have parts: "concat (resultParts @ [slice file (currentChunk * chunkSize)
          (min (currentChunk * chunkSize + chunkSize) (file_size file))])
        = take ((currentChunk + 1) * chunkSize) (content file)"
    using Suc.prems(2) slice_extends [of "currentChunk * chunkSize" "file" chunkSize]
    by (simp del: mult_Suc add_mult_distrib)
  from more have m: "max (chunk_count file) (currentChunk + 1) = chunk_count file"
    "max (chunk_count file) (currentChunk + 1 + 1) = chunk_count file" by simp_all
  have rest: "\<forall>i. currentChunk + 1 \<le> i \<and> i < max (chunk_count file) (currentChunk + 1 + 1)
                \<longrightarrow> reader i = Onload_result"
    using Suc.prems(1) m by simp
  have d: "d = chunk_count file - (currentChunk + 1 + 1)" using Suc.hyps(2) by simp
  have up: "[currentChunk + 1 ..< chunk_count file + 1]
              = (currentChunk + 1) # [currentChunk + 1 + 1 ..< chunk_count file + 1]"
    using more by (simp add: upt_conv_Cons del: upt_Suc)
  show ?case
    using ev more Suc.hyps(1) [OF d rest parts] m up
    by (subst readNextChunk.simps) (simp add: Let_def del: concat_append upt_Suc)
qed

lemma readNextChunk_not_loaded:
  assumes "currentChunk \<le> i"
    and "i < max (chunk_count file) (currentChunk + 1)"
    and "reader i \<noteq> Onload_result"
    and "\<forall>j. currentChunk \<le> j \<and> j < i \<longrightarrow> reader j = Onload_result"
  shows "readNextChunk file reader currentChunk resultParts reported =
           ((case reader i of Onerror e \<Rightarrow> Rejects (Reader_error e) | _ \<Rightarrow> Pending),
            reported @ map (\<lambda>k. percent_of k (chunk_count file)) [currentChunk + 1 ..< i + 1])"
  using assms
proof (induction "i - currentChunk" arbitrary: currentChunk resultParts reported)
  case 0
  then have "i = currentChunk" by simp
  with "0.prems"(3) show ?case
    by (subst readNextChunk.simps) (cases "reader currentChunk"; simp add: Let_def)
next
  case (Suc d)
  then have lt: "currentChunk < i" by simp
  with Suc.prems(4) have ev: "reader currentChunk = Onload_result" by simp
  from lt Suc.prems(2) have more: "currentChunk + 1 < chunk_count file" by simp
  have d: "d = i - (currentChunk + 1)" using Suc.hyps(2) by simp
  have a1: "currentChunk + 1 \<le> i" using lt by simp
  have a2: "i < max (chunk_count file) (currentChunk + 1 + 1)" using Suc.prems(2) lt by simp
  have a4: "\<forall>j. currentChunk + 1 \<le> j \<and> j < i \<longrightarrow> reader j = Onload_result"
    using Suc.prems(4) by simp
  have up: "[currentChunk + 1 ..< i + 1] = (currentChunk + 1) # [currentChunk + 1 + 1 ..< i + 1]"
    using lt by (simp add: upt_conv_Cons del: upt_Suc)
  show ?case
    using ev more Suc.hyps(1) [OF d a1 a2 Suc.prems(3) a4] up
    by (subst readNextChunk.simps) (simp add: Let_def del: upt_Suc)
qed

text \<open>The two outcomes of \<open>readFileChunked\<close>.\<close>

lemma readFileChunked_all_loaded:
  assumes "\<forall>i < max 1 (chunk_count file). reader i = Onload_result"
  shows "readFileChunked file reader =
           (Resolves (btoa (fromCharCode (content file))),
            map (\<lambda>k. percent_of k (chunk_count file)) [1 ..< max 1 (chunk_count file) + 1])"
proof -
  have "\<forall>i. 0 \<le> i \<and> i < max (chunk_count file) (0 + 1) \<longrightarrow> reader i = Onload_result"
    using assms by (simp add: max.commute)
  from readNextChunk_all_loaded [OF this, of "[]" "[]"] show ?thesis
    by (simp add: readFileChunked_def max.commute)
qed

lemma readFileChunked_not_loaded:
  assumes "i < max 1 (chunk_count file)"
    and "reader i \<noteq> Onload_result"
    and "\<forall>j < i. reader j = Onload_result"
  shows "readFileChunked file reader =
           ((case reader i of Onerror e \<Rightarrow> Rejects (Reader_error e) | _ \<Rightarrow> Pending),
            map (\<lambda>k. percent_of k (chunk_count file)) [1 ..< i + 1])"
proof -
  have a2: "i < max (chunk_count file) (0 + 1)" using assms(1) by (simp add: max.commute)
  have a4: "\<forall>j. 0 \<le> j \<and> j < i \<longrightarrow> reader j = Onload_result" using assms(3) by simp
  from readNextChunk_not_loaded [OF _ a2 assms(2) a4, of "[]" "[]"] show ?thesis
    by (simp add: readFileChunked_def)
qed

text \<open>A resolved promise carries the encoding of the whole file, and every read succeeded.\<close>

lemma readFileChunked_resolves_only_whole:
  assumes "fst (readFileChunked file reader) = Resolves b"
  shows "b = btoa (fromCharCode (content file)) \<and> (\<forall>i < max 1 (chunk_count file). reader i = Onload_result)"
proof (cases "\<forall>i < max 1 (chunk_count file). reader i = Onload_result")
  case True
  with readFileChunked_all_loaded [OF True] assms show ?thesis by simp
next
  case False
  define i where "i = (LEAST i. i < max 1 (chunk_count file) \<and> reader i \<noteq> Onload_result)"
  from False have ex: "\<exists>i. i < max 1 (chunk_count file) \<and> reader i \<noteq> Onload_result" by blast
  from LeastI_ex [OF ex] have i: "i < max 1 (chunk_count file)" "reader i \<noteq> Onload_result"
    unfolding i_def by blast+
  have before: "\<forall>j < i. reader j = Onload_result"
  proof (intro allI impI)
    fix j assume "j < i"
    then have "\<not> (j < max 1 (chunk_count file) \<and> reader j \<noteq> Onload_result)"
      unfolding i_def by (rule not_less_Least)
    with \<open>j < i\<close> i(1) show "reader j = Onload_result" by simp
  qed
  from readFileChunked_not_loaded [OF i before] assms show ?thesis
    by (cases "reader i") simp_all
qed

subsection \<open>Progress values\<close>

lemma chunk_count_ceiling: "int (chunk_count file) = \<lceil>real (file_size file) / real chunkSize\<rceil>"
proof -
  have pos: "0 < chunkSize" by (simp add: chunkSize_def)
  let ?m = "file_size file + chunkSize - 1"
  have "?m div chunkSize * chunkSize + ?m mod chunkSize = ?m" by simp
  then have "chunk_count file * chunkSize \<le> ?m" by (simp add: chunk_count_def)
  with pos have up: "chunk_count file * chunkSize < file_size file + chunkSize" by linarith
  have lo: "file_size file \<le> chunk_count file * chunkSize" by (rule chunk_cover)
  have "real (chunk_count file * chunkSize) < real (file_size file + chunkSize)"
    using up by (simp only: of_nat_less_iff)
  then have a: "real_of_int (int (chunk_count file)) - 1 < real (file_size file) / real chunkSize"
    using pos by (simp add: field_simps)
  have "real (file_size file) \<le> real (chunk_count file * chunkSize)"
    using lo by (simp only: of_nat_le_iff)
  then have b: "real (file_size file) / real chunkSize \<le> real_of_int (int (chunk_count file))"
    using pos by (simp add: field_simps)
  from ceiling_unique [OF a b] show ?thesis by simp
qed

lemma percent_of_round:
  assumes "0 < chunks"
  shows "percent_of k chunks = Integral \<lfloor>real k / real chunks * 40 + 1 / 2\<rfloor>"
proof -
  have "real k / real chunks * 40 + 1 / 2 = real (80 * k + chunks) / real (2 * chunks)"
    using assms by (simp add: field_simps)
  then have "\<lfloor>real k / real chunks * 40 + 1 / 2\<rfloor> = int ((80 * k + chunks) div (2 * chunks))"
    by (simp only: floor_divide_of_nat_eq)
  with assms show ?thesis by (simp add: percent_of_def)
qed

lemma percent_strict:
  fixes n k j :: nat
  assumes "0 < n" "n \<le> 40" "k < j"
  shows "(80 * k + n) div (2 * n) < (80 * j + n) div (2 * n)"
proof -
  have "(80 * k + n) div (2 * n) + 1 = (80 * k + n + 2 * n) div (2 * n)"
    using assms(1) div_add_self2 [of "2 * n" "80 * k + n"] by (simp only: mult_eq_0_iff) simp
  also have "\<dots> \<le> (80 * j + n) div (2 * n)"
    using assms(2,3) by (intro div_le_mono) linarith
  finally show ?thesis by simp
qed

lemma percent_last:
  fixes n :: nat
  assumes "0 < n"
  shows "(80 * n + n) div (2 * n) = 40"
proof -
  have "80 * n + n = n + 40 * (2 * n)" by simp
  then have "(80 * n + n) div (2 * n) = n div (2 * n) + 40"
    using assms div_mult_self1 [of "2 * n" n 40] by (simp only: mult_eq_0_iff) simp
  then show ?thesis using assms by simp
qed

lemma split_no_separator: "sep \<notin> set s \<Longrightarrow> split sep s = [s]"
  by (induction s) auto

lemma split_at_first: "sep \<notin> set a \<Longrightarrow> split sep (a @ sep # b) = a # split sep b"
  by (induction a) auto

lemma data_url_payload:
  assumes "CHR '','' \<notin> set (ftype file)"
  shows "element (split CHR '','' (readAsDataURL file)) 1 = Some (btoa (fromCharCode (content file)))"
proof -
  let ?head = "''data:'' @ media_type file @ '';base64''"
  let ?payload = "btoa (fromCharCode (content file))"
  have url: "readAsDataURL file = ?head @ CHR '','' # ?payload"
    by (simp add: readAsDataURL_def)
  have "CHR '','' \<notin> set ?head" using assms by (simp add: media_type_def)
  then have "split CHR '','' (readAsDataURL file) = ?head # split CHR '','' ?payload"
    unfolding url by (rule split_at_first)
  then show ?thesis by (simp add: split_no_separator btoa_no_comma)
qed

lemma readAsDataURL_examples:
  "readAsDataURL \<lparr>content = [65, 66, 67], ftype = ''''\<rparr> = ''data:application/octet-stream;base64,QUJD''"
  "readAsDataURL \<lparr>content = [65, 66, 67], ftype = ''audio/mpeg''\<rparr> = ''data:audio/mpeg;base64,QUJD''"
  by code_simp+

subsection \<open>Claims about the chunked reader\<close>

text \<open>
  C3, as stated: for every file size the callback runs \<open>ceil(S / C)\<close> times with
  strictly increasing values that end at 40. An empty file has no chunk, but the
  reader still reads once and reports \<^verbatim>\<open>Math.round((1 / 0) * 40)\<close>, which is
  \<^verbatim>\<open>Infinity\<close>; and a file of 41 chunks reports 20 twice, for its chunks 20 and 21.
\<close>

theorem progress_reports_counterexample:
  "\<lceil>real (file_size (zeros 0)) / real chunkSize\<rceil> = 0 \<and>
   snd (readFileChunked (zeros 0) all_loaded) = [PosInfinity] \<and>
   \<lceil>real (file_size (zeros 42991616)) / real chunkSize\<rceil> = 41 \<and>
   snd (readFileChunked (zeros 42991616) all_loaded) ! 19 = Integral 20 \<and>
   snd (readFileChunked (zeros 42991616) all_loaded) ! 20 = Integral 20"
proof -
  have n0: "chunk_count (zeros 0) = 0"
    by (simp add: chunk_count_def file_size_def zeros_def chunkSize_def)
  have n41: "chunk_count (zeros 42991616) = 41"
    by (simp add: chunk_count_def file_size_def zeros_def chunkSize_def)
  have r0: "snd (readFileChunked (zeros 0) all_loaded) = [PosInfinity]"
    using readFileChunked_all_loaded [of "zeros 0" all_loaded]
    by (simp add: n0 all_loaded_def percent_of_def)
  have r41: "snd (readFileChunked (zeros 42991616) all_loaded)
               = map (\<lambda>k. percent_of k 41) [1 ..< 42]"
    using readFileChunked_all_loaded [of "zeros 42991616" all_loaded]
    by (simp add: n41 all_loaded_def del: upt_rec_numeral)
  have "map (\<lambda>k. percent_of k 41) [1 ..< 42] ! 19 = Integral 20"
    "map (\<lambda>k. percent_of k 41) [1 ..< 42] ! 20 = Integral 20"
    by (simp_all add: percent_of_def del: upt_rec_numeral)
  with r0 r41 show ?thesis
    by (simp add: file_size_def zeros_def chunkSize_def del: upt_rec_numeral)
qed

text \<open>
  C3, amended: for every file of size \<open>S\<close> with \<open>0 < S \<le> 40\<close> MiB (the caller passes
  only sizes above 2 MiB and up to 9 MiB) whose reads all succeed, the callback runs
  exactly \<open>ceil(S / C)\<close> times with \<open>C\<close> = 1 MiB, the reported values are strictly
  increasing, the last one is 40, and report number \<open>k\<close> is
  \<open>round(k / chunkCount * 40)\<close>.
\<close>

theorem progress_reports:
  assumes "0 < file_size file"
    and "file_size file \<le> 40 * chunkSize"
    and "\<forall>i < chunk_count file. reader i = Onload_result"
  shows "\<exists>vs. snd (readFileChunked file reader) = map Integral vs \<and>
           int (length vs) = \<lceil>real (file_size file) / real chunkSize\<rceil> \<and>
           sorted_wrt (<) vs \<and>
           last vs = 40 \<and>
           (\<forall>k < length vs. vs ! k = \<lfloor>real (k + 1) / real (length vs) * 40 + 1 / 2\<rfloor>)"
proof -
  define n where "n = chunk_count file"
  define vs where "vs = map (\<lambda>k. int ((80 * k + n) div (2 * n))) [1 ..< n + 1]"
  have pos: "0 < n" using assms(1) unfolding n_def by (rule chunk_count_pos)
  have le: "n \<le> 40" using assms(2) unfolding n_def by (rule chunk_count_le)
  have len: "length vs = n" by (simp add: vs_def)
  have nth: "vs ! k = int ((80 * (k + 1) + n) div (2 * n))" if "k < n" for k
    using that by (simp add: vs_def del: upt_Suc)
  from pos have m: "max 1 n = n" by simp
  have "\<forall>i < max 1 (chunk_count file). reader i = Onload_result"
    using assms(3) m by (simp add: n_def)
  from readFileChunked_all_loaded [OF this]
  have "snd (readFileChunked file reader) = map (\<lambda>k. percent_of k n) [1 ..< n + 1]"
    using m by (simp add: n_def)
  also have "\<dots> = map Integral vs"
    using pos by (simp add: vs_def percent_of_def comp_def del: upt_Suc)
  finally have reports: "snd (readFileChunked file reader) = map Integral vs" .
  have count: "int (length vs) = \<lceil>real (file_size file) / real chunkSize\<rceil>"
    using chunk_count_ceiling [of "file"] by (simp add: len n_def)
  have strict: "sorted_wrt (<) vs"
    unfolding sorted_wrt_iff_nth_less
  proof (intro allI impI)
    fix i j assume "i < j" "j < length vs"
    then have "i < n" "j < n" "i + 1 < j + 1" by (simp_all add: len)
    with percent_strict [OF pos le \<open>i + 1 < j + 1\<close>] show "vs ! i < vs ! j"
      by (simp add: nth)
  qed
  have "vs \<noteq> []" using pos len by auto
  then have "last vs = vs ! (n - 1)" by (simp add: last_conv_nth len)
  also have "\<dots> = 40" using pos percent_last [OF pos] by (simp add: nth)
  finally have final: "last vs = 40" .
  have round: "\<forall>k < length vs. vs ! k = \<lfloor>real (k + 1) / real (length vs) * 40 + 1 / 2\<rfloor>"
  proof (intro allI impI)
    fix k assume "k < length vs"
    then have k: "k < n" by (simp add: len)
    from percent_of_round [OF pos, of "k + 1"]
    have "int ((80 * (k + 1) + n) div (2 * n)) = \<lfloor>real (k + 1) / real n * 40 + 1 / 2\<rfloor>"
      using pos by (simp add: percent_of_def)
    with k show "vs ! k = \<lfloor>real (k + 1) / real (length vs) * 40 + 1 / 2\<rfloor>"
      by (simp add: nth len)
  qed
  from reports count strict final round show ?thesis by blast
qed

theorem progress_reports_witness:
  "0 < file_size (zeros 3145728) \<and>
   file_size (zeros 3145728) \<le> 40 * chunkSize \<and>
   snd (readFileChunked (zeros 3145728) all_loaded) = [Integral 13, Integral 27, Integral 40] \<and>
   (\<exists>vs. snd (readFileChunked (zeros 3145728) all_loaded) = map Integral vs \<and>
      int (length vs) = 3 \<and> sorted_wrt (<) vs \<and> last vs = 40)"
proof -
  have h1: "0 < file_size (zeros 3145728)" by (simp add: file_size_def zeros_def)
  have h2: "file_size (zeros 3145728) \<le> 40 * chunkSize"
    by (simp add: file_size_def zeros_def chunkSize_def)
  have h3: "\<forall>i < chunk_count (zeros 3145728). all_loaded i = Onload_result"
    by (simp add: all_loaded_def)
  have c: "\<lceil>real (file_size (zeros 3145728)) / real chunkSize\<rceil> = 3"
    by (simp add: file_size_def zeros_def chunkSize_def)
  from progress_reports [OF h1 h2 h3] obtain vs
    where vs: "snd (readFileChunked (zeros 3145728) all_loaded) = map Integral vs"
      "int (length vs) = \<lceil>real (file_size (zeros 3145728)) / real chunkSize\<rceil>"
      "sorted_wrt (<) vs" "last vs = 40"
    by blast
  have n: "chunk_count (zeros 3145728) = 3"
    by (simp add: chunk_count_def file_size_def zeros_def chunkSize_def)
  have "\<forall>i < max 1 (chunk_count (zeros 3145728)). all_loaded i = Onload_result"
    by (simp add: all_loaded_def)
  from readFileChunked_all_loaded [OF this]
  have "snd (readFileChunked (zeros 3145728) all_loaded)
          = map (\<lambda>k. percent_of k 3) [1 ..< max 1 3 + 1]"
    by (simp only: n snd_conv)
  also have "\<dots> = [Integral 13, Integral 27, Integral 40]" by code_simp
  finally have "snd (readFileChunked (zeros 3145728) all_loaded)
                  = [Integral 13, Integral 27, Integral 40]" .
  with vs c h1 h2 show ?thesis by auto
qed

text \<open>
  C4: whenever the reads succeed, the chunked reader resolves, and base64-decoding the
  resolved string gives back the bytes of the file, for every content and so for every
  size (the empty file included).
\<close>

theorem chunked_base64_round_trip:
  assumes "\<forall>i < max 1 (chunk_count file). reader i = Onload_result"
  shows "\<exists>b. fst (readFileChunked file reader) = Resolves b \<and>
           map_option charCodes (atob b) = Some (content file)"
  using readFileChunked_all_loaded [OF assms]
  by (simp add: atob_btoa charCodes_fromCharCode)

theorem chunked_base64_round_trip_witness:
  "fst (readFileChunked \<lparr>content = [77, 97, 110], ftype = ''text/plain''\<rparr> all_loaded) = Resolves ''TWFu'' \<and>
   map_option charCodes (atob ''TWFu'') = Some [77, 97, 110] \<and>
   (\<exists>b. fst (readFileChunked (zeros 1048577) all_loaded) = Resolves b \<and>
      map_option charCodes (atob b) = Some (replicate 1048577 0))"
proof -
  let ?f = "\<lparr>content = [77, 97, 110], ftype = ''text/plain''\<rparr>"
  have h: "\<forall>i < max 1 (chunk_count ?f). all_loaded i = Onload_result"
    by (simp add: all_loaded_def)
  have h': "\<forall>i < max 1 (chunk_count (zeros 1048577)). all_loaded i = Onload_result"
    by (simp add: all_loaded_def)
  have e: "btoa (fromCharCode [77, 97, 110]) = ''TWFu''" by code_simp
  have r: "fst (readFileChunked ?f all_loaded) = Resolves ''TWFu''"
    using readFileChunked_all_loaded [OF h] e by simp
  from chunked_base64_round_trip [OF h] r
  have "map_option charCodes (atob ''TWFu'') = Some [77, 97, 110]" by simp
  moreover from chunked_base64_round_trip [OF h']
  have "\<exists>b. fst (readFileChunked (zeros 1048577) all_loaded) = Resolves b \<and>
      map_option charCodes (atob b) = Some (replicate 1048577 0)"
    by (simp add: zeros_def)
  ultimately show ?thesis using r by simp
qed

text \<open>
  C9: when the read of a chunk fails (the reads before it having succeeded), the
  promise is rejected with the reader's error event and is not resolved: no base64
  string, partial or whole, reaches the caller.
\<close>

theorem read_error_rejects:
  assumes "i < max 1 (chunk_count file)"
    and "reader i = Onerror e"
    and "\<forall>j < i. reader j = Onload_result"
  shows "fst (readFileChunked file reader) = Rejects (Reader_error e) \<and>
         (\<forall>b. fst (readFileChunked file reader) \<noteq> Resolves b)"
proof -
  from assms(2) have "reader i \<noteq> Onload_result" by simp
  from readFileChunked_not_loaded [OF assms(1) this assms(3)] assms(2) show ?thesis by simp
qed

theorem read_error_rejects_witness:
  "(1::nat) < max 1 (chunk_count (zeros 3145728)) \<and>
   fails_at 1 1 = Onerror () \<and>
   fails_at 1 0 = Onload_result \<and>
   fst (readFileChunked (zeros 3145728) (fails_at 1)) = Rejects (Reader_error ())"
proof -
  have h1: "(1::nat) < max 1 (chunk_count (zeros 3145728))"
    by (simp add: chunk_count_def file_size_def zeros_def chunkSize_def)
  have h2: "fails_at 1 1 = Onerror ()" by (simp add: fails_at_def)
  have h3: "\<forall>j < 1. fails_at 1 j = Onload_result" by (simp add: fails_at_def)
  from read_error_rejects [OF h1 h2 h3] h1 h2 h3 show ?thesis by simp
qed

text \<open>
  When the type of the file contains no comma and the reads succeed, the chunked reader
  and the single-shot reader resolve to the same string, the base64 encoding of the
  bytes of the file; the dispatch of \<^verbatim>\<open>processFile\<close> on the size then yields this
  payload on either path.
\<close>

lemma readers_agree_without_comma:
  fixes chunk_reader :: "nat \<Rightarrow> 'e reader_event"
  assumes "CHR '','' \<notin> set (ftype file)"
    and "\<forall>i < max 1 (chunk_count file). chunk_reader i = Onload_result"
  shows "fst (readFileChunked file chunk_reader) = Resolves (btoa (fromCharCode (content file))) \<and>
         fileToBase64 file (Onload_result :: 'e reader_event)
           = Resolves (Some (btoa (fromCharCode (content file)))) \<and>
         processFile_base64Data file chunk_reader Onload_result
           = (if file_size file > MAX_FILE_SIZE then None
              else Some (Resolves (Some (btoa (fromCharCode (content file))))))"
proof -
  have chunked: "fst (readFileChunked file chunk_reader) = Resolves (btoa (fromCharCode (content file)))"
    using readFileChunked_all_loaded [OF assms(2)] by simp
  have single: "fileToBase64 file (Onload_result :: 'e reader_event)
      = Resolves (Some (btoa (fromCharCode (content file))))"
    using data_url_payload [OF assms(1)] by (simp add: fileToBase64_def)
  from chunked single show ?thesis by (simp add: processFile_base64Data_def)
qed

lemma readers_agree_example:
  "fst (readFileChunked \<lparr>content = [65, 66, 67], ftype = ''audio/mpeg''\<rparr> all_loaded) = Resolves ''QUJD'' \<and>
   fileToBase64 \<lparr>content = [65, 66, 67], ftype = ''audio/mpeg''\<rparr> (Onload_result :: unit reader_event)
     = Resolves (Some ''QUJD'') \<and>
   processFile_base64Data \<lparr>content = [65, 66, 67], ftype = ''audio/mpeg''\<rparr> all_loaded Onload_result
     = Some (Resolves (Some ''QUJD''))"
proof -
  let ?f = "\<lparr>content = [65, 66, 67], ftype = ''audio/mpeg''\<rparr>"
  have h1: "CHR '','' \<notin> set (ftype ?f)" by simp
  have h2: "\<forall>i < max 1 (chunk_count ?f). all_loaded i = Onload_result"
    by (simp add: all_loaded_def)
  have e: "btoa (fromCharCode [65, 66, 67]) = ''QUJD''" by code_simp
  have s: "\<not> file_size ?f > MAX_FILE_SIZE" by (simp add: file_size_def MAX_FILE_SIZE_def)
  from readers_agree_without_comma [OF h1 h2] e s show ?thesis by simp
qed

text \<open>
  C10: for every file the two readers resolve to the same base64 string, so the
  dispatch on the size does not change the payload. The single-shot reader resolves
  with the piece between the first and the second comma of the data URL. For a file of
  three bytes whose type is \<open>audio/ogg;codecs=opus,vorbis\<close> that piece is the tail of
  the type: the chunked reader resolves with \<open>QUJD\<close>, the single-shot reader, which
  \<^verbatim>\<open>processFile\<close> uses for a file of this size, with \<open>vorbis;base64\<close>.
\<close>

theorem fileToBase64_resolves_type_fragment:
  "fst (readFileChunked \<lparr>content = [65, 66, 67], ftype = ''audio/ogg;codecs=opus,vorbis''\<rparr> all_loaded)
     = Resolves ''QUJD'' \<and>
   fileToBase64 \<lparr>content = [65, 66, 67], ftype = ''audio/ogg;codecs=opus,vorbis''\<rparr>
       (Onload_result :: unit reader_event)
     = Resolves (Some ''vorbis;base64'') \<and>
   processFile_base64Data \<lparr>content = [65, 66, 67], ftype = ''audio/ogg;codecs=opus,vorbis''\<rparr>
       all_loaded Onload_result
     = Some (Resolves (Some ''vorbis;base64''))"
proof -
  let ?f = "\<lparr>content = [65, 66, 67], ftype = ''audio/ogg;codecs=opus,vorbis''\<rparr>"
  have h: "\<forall>i < max 1 (chunk_count ?f). all_loaded i = Onload_result"
    by (simp add: all_loaded_def)
  have e: "btoa (fromCharCode [65, 66, 67]) = ''QUJD''" by code_simp
  have chunked: "fst (readFileChunked ?f all_loaded) = Resolves ''QUJD''"
    using readFileChunked_all_loaded [OF h] e by simp
  have single: "fileToBase64 ?f (Onload_result :: unit reader_event) = Resolves (Some ''vorbis;base64'')"
    by (simp add: fileToBase64_def readAsDataURL_def media_type_def e)
  have "processFile_base64Data ?f all_loaded Onload_result = Some (Resolves (Some ''vorbis;base64''))"
    using single
    by (simp add: processFile_base64Data_def file_size_def MAX_FILE_SIZE_def CHUNK_THRESHOLD_def)
  with chunked single show ?thesis by simp
qed

end
